theory Spec2Isabelle
  imports Main
begin

chapter \<open>The embedding\<close>

section \<open>The message store (backend/models/Message.js)\<close>

text \<open>
  Identifiers (user ids, room ids, message ids, correlation ids) are strings, as the
  clients send them; a JavaScript \<^verbatim>\<open>Date\<close> is its number of milliseconds.
  An optional field of a document or of a socket payload is an \<open>option\<close>:
  \<open>None\<close> stands for \<^verbatim>\<open>undefined\<close> (the field is absent).
\<close>

type_synonym time = int

text \<open>JavaScript truthiness of an optional string: present and not empty.\<close>

definition truthy :: "string option \<Rightarrow> bool" where
  "truthy v = (case v of None \<Rightarrow> False | Some x \<Rightarrow> x \<noteq> [])"

text \<open>
  A persisted document of the schema: \<open>m_id\<close> is \<^verbatim>\<open>_id\<close>, \<open>body\<close> is the
  field \<^verbatim>\<open>text\<close>; \<open>createdAt\<close> and \<open>updatedAt\<close> come from
  \<^verbatim>\<open>timestamps: true\<close>.
\<close>

record message =
  m_id :: string
  sender :: string
  receiver :: "string option"
  room :: "string option"
  body :: string
  clientMsgId :: "string option"
  isDeleted :: bool
  deletedAt :: "time option"
  createdAt :: time
  updatedAt :: time

text \<open>
  What \<^verbatim>\<open>new Message({...})\<close> is given. The empty string stands for a missing
  or empty \<^verbatim>\<open>text\<close>: the \<^verbatim>\<open>required\<close> validator of a String
  path rejects both.
\<close>

record draft =
  d_sender :: "string option"
  d_receiver :: "string option"
  d_room :: "string option"
  d_text :: string
  d_clientMsgId :: "string option"

datatype store_error = ValidationError | DuplicateKey | StorageError

text \<open>
  The paths \<^verbatim>\<open>sender\<close>, \<^verbatim>\<open>receiver\<close> and \<^verbatim>\<open>room\<close> have the type
  \<^verbatim>\<open>mongoose.Schema.Types.ObjectId\<close>: a string given for one of them is cast, and
  the cast takes the 24 hexadecimal digits of an \<^verbatim>\<open>ObjectId\<close> (drivers before
  bson 5 also took any string of 12 characters); every other string is a
  \<^verbatim>\<open>CastError\<close>, which validation reports. An absent path is not cast.
\<close>

definition hex_digit :: "char \<Rightarrow> bool" where
  "hex_digit c \<longleftrightarrow> c \<in> set ''0123456789abcdefABCDEF''"

definition objectId :: "string \<Rightarrow> bool" where
  "objectId x \<longleftrightarrow> length x = 24 \<and> list_all hex_digit x"

definition castObjectId :: "string option \<Rightarrow> bool" where
  "castObjectId v = (case v of None \<Rightarrow> True | Some x \<Rightarrow> objectId x)"

text \<open>The unique index on \<^verbatim>\<open>_id\<close> that every collection has.\<close>

definition index_id_free :: "message list \<Rightarrow> string \<Rightarrow> bool" where
  "index_id_free db oid \<longleftrightarrow> oid \<notin> set (map m_id db)"

text \<open>
  \<^verbatim>\<open>clientMsgId: { type: String, unique: true, sparse: true }\<close>: a document without
  the field is not indexed; a document with the field needs a value no indexed document has.
\<close>

definition index_clientMsgId_free :: "message list \<Rightarrow> string option \<Rightarrow> bool" where
  "index_clientMsgId_free db c \<longleftrightarrow>
     (case c of None \<Rightarrow> True | Some x \<Rightarrow> Some x \<notin> set (map clientMsgId db))"

text \<open>
  \<^verbatim>\<open>messageSchema.index({ sender: 1, receiver: 1, text: 1, clientMsgId: 1, createdAt: 1 }, { unique: true })\<close>:
  the compound index is not sparse, an absent field is indexed as such.
\<close>

definition index_tuple ::
  "message \<Rightarrow> string \<times> string option \<times> string \<times> string option \<times> time" where
  "index_tuple m = (sender m, receiver m, body m, clientMsgId m, createdAt m)"

definition index_compound_free :: "message list \<Rightarrow> message \<Rightarrow> bool" where
  "index_compound_free db doc \<longleftrightarrow> index_tuple doc \<notin> set (map index_tuple db)"

text \<open>
  \<^verbatim>\<open>message.save()\<close> at time \<open>t\<close> for a document constructed with the fresh
  \<^verbatim>\<open>_id\<close> \<open>oid\<close>; \<open>up\<close> tells whether the store answers. Validation
  (\<^verbatim>\<open>required: true\<close> on \<^verbatim>\<open>sender\<close> and \<^verbatim>\<open>text\<close>, and the casts
  of \<^verbatim>\<open>sender\<close>, \<^verbatim>\<open>receiver\<close> and \<^verbatim>\<open>room\<close>) runs before the
  insert; the insert is refused by a unique index with a duplicate key error. The default
  \<^verbatim>\<open>isDeleted: false\<close> is filled in.
\<close>

definition new_message :: "time \<Rightarrow> string \<Rightarrow> string \<Rightarrow> draft \<Rightarrow> message" where
  "new_message t oid s d =
     \<lparr> m_id = oid, sender = s, receiver = d_receiver d, room = d_room d, body = d_text d,
       clientMsgId = d_clientMsgId d, isDeleted = False, deletedAt = None,
       createdAt = t, updatedAt = t \<rparr>"

definition save ::
  "time \<Rightarrow> string \<Rightarrow> bool \<Rightarrow> message list \<Rightarrow> draft \<Rightarrow> store_error + message \<times> message list" where
  "save t oid up db d =
     (case d_sender d of
        None \<Rightarrow> Inl ValidationError
      | Some s \<Rightarrow>
          if d_text d = [] \<or> \<not> objectId s \<or> \<not> castObjectId (d_receiver d)
             \<or> \<not> castObjectId (d_room d)
          then Inl ValidationError
          else if \<not> up then Inl StorageError
          else if index_id_free db oid
                  \<and> index_clientMsgId_free db (d_clientMsgId d)
                  \<and> index_compound_free db (new_message t oid s d)
               then Inr (new_message t oid s d, db @ [new_message t oid s d])
               else Inl DuplicateKey)"

text \<open>
  The soft delete of the socket handler:
  \<^verbatim>\<open>Message.findOneAndUpdate({ _id: messageId, sender: userId },
     { isDeleted: true, deletedAt: new Date(), text: '[Message deleted]' }, { new: true })\<close>.
  The first document that matches the filter is updated in place (its
  \<^verbatim>\<open>updatedAt\<close> too, by \<^verbatim>\<open>timestamps\<close>) and returned as updated;
  \<open>None\<close> is the \<^verbatim>\<open>null\<close> of no match.
\<close>

definition deleted_marker :: string where
  "deleted_marker = ''[Message deleted]''"

definition mark_deleted :: "time \<Rightarrow> message \<Rightarrow> message" where
  "mark_deleted t m =
     m\<lparr> isDeleted := True, deletedAt := Some t, body := deleted_marker, updatedAt := t \<rparr>"

fun findOneAndUpdate ::
  "time \<Rightarrow> string \<Rightarrow> string \<Rightarrow> message list \<Rightarrow> message option \<times> message list" where
  "findOneAndUpdate t mid uid [] = (None, [])"
| "findOneAndUpdate t mid uid (m # ms) =
     (if m_id m = mid \<and> sender m = uid then (Some (mark_deleted t m), mark_deleted t m # ms)
      else (fst (findOneAndUpdate t mid uid ms), m # snd (findOneAndUpdate t mid uid ms)))"

text \<open>
  The hard delete of the REST route (\<^verbatim>\<open>router.delete('/:messageId')\<close>):
  \<^verbatim>\<open>Message.findOneAndDelete({ _id: messageId, sender: userId })\<close> removes the first
  match and returns it.
\<close>

fun findOneAndDelete :: "string \<Rightarrow> string \<Rightarrow> message list \<Rightarrow> message option \<times> message list" where
  "findOneAndDelete mid uid [] = (None, [])"
| "findOneAndDelete mid uid (m # ms) =
     (if m_id m = mid \<and> sender m = uid then (Some m, ms)
      else (fst (findOneAndDelete mid uid ms), m # snd (findOneAndDelete mid uid ms)))"

text \<open>The collections this program can produce, from the empty one.\<close>

inductive reachable_db :: "message list \<Rightarrow> bool" where
  db_empty: "reachable_db []"
| db_save: "reachable_db db \<Longrightarrow> save t oid up db d = Inr (doc, db') \<Longrightarrow> reachable_db db'"
| db_update: "reachable_db db \<Longrightarrow> reachable_db (snd (findOneAndUpdate t mid uid db))"
| db_delete: "reachable_db db \<Longrightarrow> reachable_db (snd (findOneAndDelete mid uid db))"

text \<open>The correlation ids the sparse index holds, in document order.\<close>

definition indexed_clientMsgIds :: "message list \<Rightarrow> string list" where
  "indexed_clientMsgIds db = List.map_filter clientMsgId db"

section \<open>Users (the User schema) and population\<close>

text \<open>The fields of a user document that the server reads or writes.\<close>

record user_doc =
  username :: string
  avatar :: string
  online :: bool
  lastSeen :: "time option"

text \<open>
  \<^verbatim>\<open>User.findByIdAndUpdate(id, { online, lastSeen })\<close>: the document with this id is
  updated; when there is none the call resolves to \<^verbatim>\<open>null\<close> and changes nothing.
\<close>

definition findByIdAndUpdate ::
  "string \<Rightarrow> bool \<Rightarrow> time option \<Rightarrow> (string \<rightharpoonup> user_doc) \<Rightarrow> (string \<rightharpoonup> user_doc)" where
  "findByIdAndUpdate uid on ls us =
     (case us uid of None \<Rightarrow> us | Some u \<Rightarrow> us(uid \<mapsto> u\<lparr> online := on, lastSeen := ls \<rparr>))"

text \<open>
  \<^verbatim>\<open>Message.populate(doc, [{ path, select: 'username avatar' }])\<close> replaces the id at
  a path by the selected fields of the user it refers to, or by \<^verbatim>\<open>null\<close> when there
  is no such user; a path the document does not have stays absent. Both are \<open>None\<close> here.
\<close>

record user_ref =
  ref_id :: string
  ref_username :: string
  ref_avatar :: string

definition populate_path :: "(string \<rightharpoonup> user_doc) \<Rightarrow> string option \<Rightarrow> user_ref option" where
  "populate_path us path =
     (case path of
        None \<Rightarrow> None
      | Some uid \<Rightarrow>
          (case us uid of
             None \<Rightarrow> None
           | Some u \<Rightarrow> Some \<lparr> ref_id = uid, ref_username = username u, ref_avatar = avatar u \<rparr>))"

record populated =
  p_doc :: message
  p_sender :: "user_ref option"
  p_receiver :: "user_ref option"

text \<open>The direct send populates \<^verbatim>\<open>sender\<close> and \<^verbatim>\<open>receiver\<close>, the room send only \<^verbatim>\<open>sender\<close>.\<close>

definition populate_direct :: "(string \<rightharpoonup> user_doc) \<Rightarrow> message \<Rightarrow> populated" where
  "populate_direct us m =
     \<lparr> p_doc = m, p_sender = populate_path us (Some (sender m)),
       p_receiver = populate_path us (receiver m) \<rparr>"

definition populate_room :: "(string \<rightharpoonup> user_doc) \<Rightarrow> message \<Rightarrow> populated" where
  "populate_room us m =
     \<lparr> p_doc = m, p_sender = populate_path us (Some (sender m)), p_receiver = None \<rparr>"

section \<open>Sockets, rooms and emissions (socket.io)\<close>

text \<open>
  A connected socket carries the identity the handshake gave it
  (\<^verbatim>\<open>socket.userId\<close>, \<^verbatim>\<open>socket.username\<close>).
\<close>

record socket =
  socket_id :: nat
  userId :: string
  socket_username :: string

text \<open>The payloads of the two send events, as the client emits them.\<close>

record direct_payload =
  dp_receiver :: string
  dp_text :: string
  dp_clientMsgId :: "string option"

record room_payload =
  rp_roomId :: string
  rp_text :: string
  rp_tempId :: "string option"
  rp_sender :: "string option"
  rp_senderName :: "string option"

text \<open>
  The unconfirmed copy of a room message,
  \<^verbatim>\<open>{ _id: tempId, sender, senderName, room: roomId, text, createdAt: new Date(), tempId }\<close>,
  and the two shapes a \<^verbatim>\<open>newRoomMessage\<close> carries: that copy, or the populated
  document with \<^verbatim>\<open>tempId\<close> added.
\<close>

record unconfirmed =
  u_id :: "string option"
  u_sender :: "string option"
  u_senderName :: "string option"
  u_room :: string
  u_text :: string
  u_createdAt :: time
  u_tempId :: "string option"

datatype room_message = Immediate unconfirmed | Persisted populated "string option"


text \<open>
  The events the server emits. \<open>NewMessage pm cid\<close> is
  \<^verbatim>\<open>{ ...populatedMessage.toObject(), clientMsgId, fromServer: true }\<close>;
  \<open>MessageError text cid\<close> is \<^verbatim>\<open>{ error, clientMsgId }\<close> or
  \<^verbatim>\<open>{ error, tempId }\<close>; the membership events are
  \<^verbatim>\<open>{ userId, username, roomId }\<close>.
\<close>

datatype event =
    UserOnline string
  | UserOffline string
  | NewMessage populated "string option"
  | MessageError string "string option"
  | UserJoinedRoom string string string
  | UserLeftRoom string string string
  | NewRoomMessage room_message
  | RemoveFailedMessage "string option"
  | RoomMessageDeleted message

text \<open>
  Where an emission goes: \<^verbatim>\<open>io.to(room).emit\<close>, \<^verbatim>\<open>socket.emit\<close> (this
  socket only) and \<^verbatim>\<open>socket.broadcast.emit\<close> (every connected socket but this one).
\<close>

datatype target = ToRoom string | ToSocket nat | Broadcast nat

type_synonym emit = "target \<times> event"

text \<open>
  The server: the connected sockets, socket.io's rooms (room name to the ids of the sockets
  joined), the \<^verbatim>\<open>activeRooms\<close> map (a \<^verbatim>\<open>Map\<close> from room id to a
  \<^verbatim>\<open>Set\<close> of user ids, both in insertion order, keys and elements unique), and
  the two collections.
\<close>

record server =
  sockets :: "socket list"
  rooms :: "string \<Rightarrow> nat set"
  activeRooms :: "(string \<times> string list) list"
  users :: "string \<rightharpoonup> user_doc"
  messages :: "message list"

text \<open>Whether an emission reaches socket \<open>c\<close> in state \<open>s\<close>, and what \<open>c\<close> receives of a list of emissions.\<close>

fun reaches :: "server \<Rightarrow> nat \<Rightarrow> target \<Rightarrow> bool" where
  "reaches s c (ToRoom r) = (c \<in> rooms s r)"
| "reaches s c (ToSocket c') = (c = c')"
| "reaches s c (Broadcast c') = (c \<noteq> c' \<and> c \<in> set (map socket_id (sockets s)))"

definition inbox :: "server \<Rightarrow> nat \<Rightarrow> emit list \<Rightarrow> event list" where
  "inbox s c es = map snd (filter (\<lambda>e. reaches s c (fst e)) es)"

text \<open>
  What the environment decides for one run of a handler: the clock of its
  \<^verbatim>\<open>new Date()\<close>, the clock of the store's timestamps, the \<^verbatim>\<open>_id\<close> a new
  document is constructed with, and whether the store answers the write and the population.
\<close>

record env =
  now :: time
  saved_at :: time
  new_id :: string
  store_up :: bool
  populate_up :: bool

text \<open>The \<^verbatim>\<open>Map\<close> and \<^verbatim>\<open>Set\<close> operations on \<^verbatim>\<open>activeRooms\<close>.\<close>

definition map_has :: "string \<Rightarrow> (string \<times> string list) list \<Rightarrow> bool" where
  "map_has k m \<longleftrightarrow> k \<in> set (map fst m)"

fun map_set :: "string \<Rightarrow> string list \<Rightarrow> (string \<times> string list) list \<Rightarrow> (string \<times> string list) list" where
  "map_set k v [] = [(k, v)]"
| "map_set k v ((k', v') # m) = (if k' = k then (k, v) # m else (k', v') # map_set k v m)"

definition map_get :: "string \<Rightarrow> (string \<times> string list) list \<Rightarrow> string list" where
  "map_get k m = (case map_of m k of None \<Rightarrow> [] | Some v \<Rightarrow> v)"

definition map_delete :: "string \<Rightarrow> (string \<times> string list) list \<Rightarrow> (string \<times> string list) list" where
  "map_delete k m = filter (\<lambda>kv. fst kv \<noteq> k) m"

definition set_add :: "string \<Rightarrow> string list \<Rightarrow> string list" where
  "set_add x xs = (if x \<in> set xs then xs else xs @ [x])"

definition set_delete :: "string \<Rightarrow> string list \<Rightarrow> string list" where
  "set_delete x xs = removeAll x xs"

section \<open>The server's handlers (the socket server, unnamed/part_002)\<close>

subsection \<open>Handshake and connection\<close>

text \<open>
  \<^verbatim>\<open>io.use\<close> and \<^verbatim>\<open>io.on('connection')\<close>. \<open>verify\<close> is
  \<^verbatim>\<open>jwt.verify\<close> with the server's secret: the decoded
  \<^verbatim>\<open>(userId, username)\<close> of a good token, the id of a user as the server signed
  it. A refused handshake registers nothing.
  An accepted one marks the user online with \<^verbatim>\<open>lastSeen: null\<close>, joins the socket
  to the room named by its user id and tells every other socket \<^verbatim>\<open>userOnline\<close>.
\<close>

datatype connect_error = NoTokenProvided | InvalidToken | UserUpdateFailed

definition connect ::
  "(string \<Rightarrow> (string \<times> string) option) \<Rightarrow> env \<Rightarrow> nat \<Rightarrow> string option \<Rightarrow> server
     \<Rightarrow> connect_error + server \<times> emit list" where
  "connect verify e c token s =
     (case token of
        None \<Rightarrow> Inl NoTokenProvided
      | Some tk \<Rightarrow>
          if tk = [] then Inl NoTokenProvided
          else
            (case verify tk of
               None \<Rightarrow> Inl InvalidToken
             | Some (uid, uname) \<Rightarrow>
                 if \<not> store_up e then Inl UserUpdateFailed
                 else Inr
                   (s\<lparr> users := findByIdAndUpdate uid True None (users s),
                       sockets := sockets s @ [\<lparr> socket_id = c, userId = uid, socket_username = uname \<rparr>],
                       rooms := (rooms s)(uid := insert c (rooms s uid)) \<rparr>,
                    [(Broadcast c, UserOnline uid)])))"

subsection \<open>Joining and leaving a room\<close>

definition joinRoom :: "socket \<Rightarrow> string \<Rightarrow> server \<Rightarrow> server \<times> emit list" where
  "joinRoom sock roomId s =
     (let m0 = (if \<not> map_has roomId (activeRooms s) then map_set roomId [] (activeRooms s)
                else activeRooms s);
          m1 = map_set roomId (set_add (userId sock) (map_get roomId m0)) m0
      in (s\<lparr> rooms := (rooms s)(roomId := insert (socket_id sock) (rooms s roomId)),
             activeRooms := m1 \<rparr>,
          [(ToRoom roomId, UserJoinedRoom (userId sock) (socket_username sock) roomId)]))"

definition leaveRoom :: "socket \<Rightarrow> string \<Rightarrow> server \<Rightarrow> server \<times> emit list" where
  "leaveRoom sock roomId s =
     (let m1 = (if map_has roomId (activeRooms s)
                then (let m0 = map_set roomId (set_delete (userId sock) (map_get roomId (activeRooms s)))
                                 (activeRooms s)
                      in if length (map_get roomId m0) = 0 then map_delete roomId m0 else m0)
                else activeRooms s)
      in (s\<lparr> rooms := (rooms s)(roomId := rooms s roomId - {socket_id sock}),
             activeRooms := m1 \<rparr>,
          [(ToRoom roomId, UserLeftRoom (userId sock) (socket_username sock) roomId)]))"

subsection \<open>Direct send\<close>

text \<open>
  The two awaited store calls of a send, \<^verbatim>\<open>message.save()\<close> and
  \<^verbatim>\<open>Message.populate\<close>: either throws into the handler's \<^verbatim>\<open>catch\<close>. The
  result carries the collection as the calls leave it: a save that went through stays
  when the population fails.
\<close>

definition persist ::
  "env \<Rightarrow> ((string \<rightharpoonup> user_doc) \<Rightarrow> message \<Rightarrow> populated) \<Rightarrow> (string \<rightharpoonup> user_doc) \<Rightarrow> message list \<Rightarrow> draft
     \<Rightarrow> store_error \<times> message list + populated \<times> message list" where
  "persist e pop us db d =
     (case save (saved_at e) (new_id e) (store_up e) db d of
        Inl err \<Rightarrow> Inl (err, db)
      | Inr (doc, db') \<Rightarrow>
          if populate_up e then Inr (pop us doc, db') else Inl (StorageError, db'))"

definition direct_draft :: "socket \<Rightarrow> direct_payload \<Rightarrow> draft" where
  "direct_draft sock p =
     \<lparr> d_sender = Some (userId sock), d_receiver = Some (dp_receiver p), d_room = None,
       d_text = dp_text p, d_clientMsgId = dp_clientMsgId p \<rparr>"

definition sendMessage :: "env \<Rightarrow> socket \<Rightarrow> direct_payload \<Rightarrow> server \<Rightarrow> server \<times> emit list" where
  "sendMessage e sock p s =
     (case persist e populate_direct (users s) (messages s) (direct_draft sock p) of
        Inr (pm, db') \<Rightarrow>
          (s\<lparr> messages := db' \<rparr>,
           [(ToRoom (dp_receiver p), NewMessage pm (dp_clientMsgId p)),
            (ToRoom (userId sock), NewMessage pm (dp_clientMsgId p))])
      | Inl (err, db') \<Rightarrow>
          (s\<lparr> messages := db' \<rparr>,
           [(ToSocket (socket_id sock), MessageError ''Failed to send message'' (dp_clientMsgId p))]))"

subsection \<open>Room send\<close>

definition immediateMessage :: "env \<Rightarrow> room_payload \<Rightarrow> unconfirmed" where
  "immediateMessage e p =
     \<lparr> u_id = rp_tempId p, u_sender = rp_sender p, u_senderName = rp_senderName p,
       u_room = rp_roomId p, u_text = rp_text p, u_createdAt = now e, u_tempId = rp_tempId p \<rparr>"

definition room_draft :: "room_payload \<Rightarrow> draft" where
  "room_draft p =
     \<lparr> d_sender = rp_sender p, d_receiver = None, d_room = Some (rp_roomId p),
       d_text = rp_text p, d_clientMsgId = rp_tempId p \<rparr>"

text \<open>
  The handler emits before and after its \<^verbatim>\<open>await\<close>; the result is the new state,
  the emissions made before the save is awaited and the emissions made once it has
  settled. Other events may be handled in between, so each list is delivered to the room
  as it is when the list is emitted.
\<close>

definition sendRoomMessage ::
  "env \<Rightarrow> socket \<Rightarrow> room_payload \<Rightarrow> server \<Rightarrow> server \<times> emit list \<times> emit list" where
  "sendRoomMessage e sock p s =
     (let before = [(ToRoom (rp_roomId p), NewRoomMessage (Immediate (immediateMessage e p)))]
      in case persist e populate_room (users s) (messages s) (room_draft p) of
           Inr (pm, db') \<Rightarrow>
             (s\<lparr> messages := db' \<rparr>, before,
              [(ToRoom (rp_roomId p), NewRoomMessage (Persisted pm (rp_tempId p)))])
         | Inl (err, db') \<Rightarrow>
             (s\<lparr> messages := db' \<rparr>, before,
              [(ToSocket (socket_id sock), MessageError ''Failed to send room message'' (rp_tempId p)),
               (ToRoom (rp_roomId p), RemoveFailedMessage (rp_tempId p))]))"

subsection \<open>Deleting a room message\<close>

text \<open>
  \<^verbatim>\<open>deleteRoomMessage\<close>: a store that does not answer, no match
  (\<^verbatim>\<open>throw new Error('Message not found or unauthorized')\<close>) and a matched document
  without a \<^verbatim>\<open>room\<close> (\<^verbatim>\<open>message.room.toString()\<close> throws on
  \<^verbatim>\<open>undefined\<close>, after the update was written) all end in the \<^verbatim>\<open>catch\<close>.
  So does a \<^verbatim>\<open>messageId\<close> that the filter cannot cast to an
  \<^verbatim>\<open>ObjectId\<close>: it changes nothing and is answered like a filter that matches no
  document, which is what it is here, the \<^verbatim>\<open>_id\<close> of a stored document being an
  \<^verbatim>\<open>ObjectId\<close>.
\<close>

definition deleteRoomMessage :: "env \<Rightarrow> socket \<Rightarrow> string \<Rightarrow> server \<Rightarrow> server \<times> emit list" where
  "deleteRoomMessage e sock messageId s =
     (if \<not> store_up e
      then (s, [(ToSocket (socket_id sock), MessageError ''Failed to delete message'' None)])
      else
        (case findOneAndUpdate (now e) messageId (userId sock) (messages s) of
           (None, db') \<Rightarrow>
             (s, [(ToSocket (socket_id sock), MessageError ''Failed to delete message'' None)])
         | (Some m, db') \<Rightarrow>
             (case room m of
                None \<Rightarrow>
                  (s\<lparr> messages := db' \<rparr>,
                   [(ToSocket (socket_id sock), MessageError ''Failed to delete message'' None)])
              | Some r \<Rightarrow>
                  (s\<lparr> messages := db' \<rparr>, [(ToRoom r, RoomMessageDeleted m)]))))"

subsection \<open>Disconnection\<close>

text \<open>
  The \<^verbatim>\<open>activeRooms.forEach\<close> of the disconnect handler, over the entries in
  insertion order: a room that has the user loses it, a \<^verbatim>\<open>userLeftRoom\<close> goes to
  the room, and the entry is deleted when its set is left empty.
\<close>

fun leaveAllRooms ::
  "string \<Rightarrow> string \<Rightarrow> (string \<times> string list) list \<Rightarrow> (string \<times> string list) list \<times> emit list" where
  "leaveAllRooms u n [] = ([], [])"
| "leaveAllRooms u n ((r, us) # rest) =
     (if u \<in> set us
      then ((if length (set_delete u us) = 0 then fst (leaveAllRooms u n rest)
             else (r, set_delete u us) # fst (leaveAllRooms u n rest)),
            (ToRoom r, UserLeftRoom u n r) # snd (leaveAllRooms u n rest))
      else ((r, us) # fst (leaveAllRooms u n rest), snd (leaveAllRooms u n rest)))"

text \<open>
  The \<^verbatim>\<open>disconnect\<close> event fires once socket.io has taken the socket out of its
  rooms. The handler awaits the presence update first; when that throws, the
  \<^verbatim>\<open>catch\<close> only logs and nothing after it runs.
\<close>

definition disconnect :: "env \<Rightarrow> socket \<Rightarrow> server \<Rightarrow> server \<times> emit list" where
  "disconnect e sock s =
     (let s0 = s\<lparr> sockets := filter (\<lambda>x. socket_id x \<noteq> socket_id sock) (sockets s),
                  rooms := (\<lambda>r. rooms s r - {socket_id sock}) \<rparr>
      in if \<not> store_up e then (s0, [])
         else
           (s0\<lparr> users := findByIdAndUpdate (userId sock) False (Some (now e)) (users s0),
                activeRooms := fst (leaveAllRooms (userId sock) (socket_username sock) (activeRooms s0)) \<rparr>,
            (Broadcast (socket_id sock), UserOffline (userId sock))
              # snd (leaveAllRooms (userId sock) (socket_username sock) (activeRooms s0))))"

section \<open>The REST routes that write messages (messageRoutes, unnamed/part_001)\<close>

text \<open>
  \<^verbatim>\<open>router.post('/')\<close>: the body's \<^verbatim>\<open>text\<close> must be truthy, and
  \<^verbatim>\<open>receiverId\<close> or else \<^verbatim>\<open>roomId\<close>; the message is saved with the
  authenticated user as sender. A request that is refused, or whose save fails, leaves the
  collection as it is.
\<close>

record post_body =
  pb_receiverId :: "string option"
  pb_roomId :: "string option"
  pb_text :: string
  pb_clientMsgId :: "string option"

definition post_draft :: "string \<Rightarrow> post_body \<Rightarrow> draft option" where
  "post_draft uid b =
     (if pb_text b = [] then None
      else if truthy (pb_receiverId b)
      then Some \<lparr> d_sender = Some uid, d_receiver = pb_receiverId b, d_room = None,
                  d_text = pb_text b, d_clientMsgId = pb_clientMsgId b \<rparr>
      else if truthy (pb_roomId b)
      then Some \<lparr> d_sender = Some uid, d_receiver = None, d_room = pb_roomId b,
                  d_text = pb_text b, d_clientMsgId = pb_clientMsgId b \<rparr>
      else None)"

definition postMessage :: "env \<Rightarrow> string \<Rightarrow> post_body \<Rightarrow> server \<Rightarrow> server" where
  "postMessage e uid b s =
     (case post_draft uid b of
        None \<Rightarrow> s
      | Some d \<Rightarrow>
          (case save (saved_at e) (new_id e) (store_up e) (messages s) d of
             Inl err \<Rightarrow> s
           | Inr (doc, db') \<Rightarrow> s\<lparr> messages := db' \<rparr>))"

text \<open>
  \<^verbatim>\<open>router.delete('/:messageId')\<close>:
  \<^verbatim>\<open>Message.findOneAndDelete({ _id: req.params.messageId, sender: req.user._id })\<close>.
\<close>

definition deleteMessage :: "env \<Rightarrow> string \<Rightarrow> string \<Rightarrow> server \<Rightarrow> server" where
  "deleteMessage e uid messageId s =
     (if store_up e then s\<lparr> messages := snd (findOneAndDelete messageId uid (messages s)) \<rparr> else s)"

section \<open>The states the server reaches\<close>

text \<open>
  The server starts with no socket, empty rooms, an empty \<^verbatim>\<open>activeRooms\<close> map and an
  empty message collection; each handled event is a step. A handshake gives the new socket
  an id no connected socket has; every other socket event comes from a connected socket;
  the REST routes are called for any authenticated user. With
  \<open>strict\<close> set, only runs in which the presence update of every disconnect was answered
  are followed.
\<close>

definition server_init :: "(string \<rightharpoonup> user_doc) \<Rightarrow> server" where
  "server_init us =
     \<lparr> sockets = [], rooms = (\<lambda>r. {}), activeRooms = [], users = us, messages = [] \<rparr>"

inductive reachable :: "bool \<Rightarrow> server \<Rightarrow> bool" for strict :: bool where
  r_init: "reachable strict (server_init us)"
| r_connect: "reachable strict s \<Longrightarrow> c \<notin> set (map socket_id (sockets s)) \<Longrightarrow>
     connect verify e c token s = Inr (s', out) \<Longrightarrow> reachable strict s'"
| r_joinRoom: "reachable strict s \<Longrightarrow> sock \<in> set (sockets s) \<Longrightarrow>
     reachable strict (fst (joinRoom sock roomId s))"
| r_leaveRoom: "reachable strict s \<Longrightarrow> sock \<in> set (sockets s) \<Longrightarrow>
     reachable strict (fst (leaveRoom sock roomId s))"
| r_sendMessage: "reachable strict s \<Longrightarrow> sock \<in> set (sockets s) \<Longrightarrow>
     reachable strict (fst (sendMessage e sock p s))"
| r_sendRoomMessage: "reachable strict s \<Longrightarrow> sock \<in> set (sockets s) \<Longrightarrow>
     reachable strict (fst (sendRoomMessage e sock q s))"
| r_deleteRoomMessage: "reachable strict s \<Longrightarrow> sock \<in> set (sockets s) \<Longrightarrow>
     reachable strict (fst (deleteRoomMessage e sock messageId s))"
| r_disconnect: "reachable strict s \<Longrightarrow> sock \<in> set (sockets s) \<Longrightarrow> strict \<longrightarrow> store_up e \<Longrightarrow>
     reachable strict (fst (disconnect e sock s))"
| r_postMessage: "reachable strict s \<Longrightarrow> reachable strict (postMessage e uid b s)"
| r_deleteMessage: "reachable strict s \<Longrightarrow> reachable strict (deleteMessage e uid messageId s)"

section \<open>Two delete calls in flight\<close>

text \<open>
  \<^verbatim>\<open>deleteRoomMessage\<close> has one \<^verbatim>\<open>await\<close>: the store applies the update of a
  call atomically at some moment, and the rest of the handler runs at a later one. A call
  is \<open>Pending\<close> until the store has answered, then holds the updated document
  (\<open>Found\<close>) or the failure (\<open>Failed\<close>: the store did not answer, or nothing matched)
  until the handler resumes, emits and is \<open>Finished\<close>. \<^verbatim>\<open>new Date()\<close> is read when
  the call is made.
\<close>

datatype del_stage = Pending | Found message | Failed | Finished

record del_call =
  dc_env :: env
  dc_sock :: socket
  dc_messageId :: string

fun del_step :: "del_call \<Rightarrow> del_stage \<Rightarrow> message list \<Rightarrow> del_stage \<times> message list \<times> emit list" where
  "del_step k Pending db =
     (if \<not> store_up (dc_env k) then (Failed, db, [])
      else
        (case findOneAndUpdate (now (dc_env k)) (dc_messageId k) (userId (dc_sock k)) db of
           (None, db') \<Rightarrow> (Failed, db, [])
         | (Some m, db') \<Rightarrow> (Found m, db', [])))"
| "del_step k (Found m) db =
     (case room m of
        None \<Rightarrow>
          (Finished, db,
           [(ToSocket (socket_id (dc_sock k)), MessageError ''Failed to delete message'' None)])
      | Some r \<Rightarrow> (Finished, db, [(ToRoom r, RoomMessageDeleted m)]))"
| "del_step k Failed db =
     (Finished, db,
      [(ToSocket (socket_id (dc_sock k)), MessageError ''Failed to delete message'' None)])"
| "del_step k Finished db = (Finished, db, [])"

text \<open>
  Two calls \<open>ka\<close> and \<open>kb\<close> on one collection: a schedule says whose step comes next;
  the emissions are kept in the order they are made.
\<close>

datatype turn = CallA | CallB

record del_run =
  stage_a :: del_stage
  stage_b :: del_stage
  run_db :: "message list"
  run_out :: "emit list"

fun del_turn :: "del_call \<Rightarrow> del_call \<Rightarrow> del_run \<Rightarrow> turn \<Rightarrow> del_run" where
  "del_turn ka kb r CallA =
     (case del_step ka (stage_a r) (run_db r) of
        (st, db, out) \<Rightarrow> r\<lparr> stage_a := st, run_db := db, run_out := run_out r @ out \<rparr>)"
| "del_turn ka kb r CallB =
     (case del_step kb (stage_b r) (run_db r) of
        (st, db, out) \<Rightarrow> r\<lparr> stage_b := st, run_db := db, run_out := run_out r @ out \<rparr>)"

definition del_schedule :: "del_call \<Rightarrow> del_call \<Rightarrow> turn list \<Rightarrow> message list \<Rightarrow> del_run" where
  "del_schedule ka kb sch db =
     foldl (del_turn ka kb) \<lparr> stage_a = Pending, stage_b = Pending, run_db = db, run_out = [] \<rparr> sch"

section \<open>The group call component (src/components/GroupVideoCall.jsx)\<close>

text \<open>
  A \<^verbatim>\<open>groupCallSignal\<close> carries \<^verbatim>\<open>{ type: 'offer' | 'answer', sdp }\<close> or
  \<^verbatim>\<open>{ type: 'candidate', candidate }\<close>; any other type falls through every branch.
\<close>

datatype signal = Offer string | Answer string | Candidate string | OtherSignal

text \<open>
  What the component observes of an \<^verbatim>\<open>RTCPeerConnection\<close>: its remote and local
  descriptions, the candidates handed to \<^verbatim>\<open>addIceCandidate\<close> in call order, and
  whether it was closed.
\<close>

record peer_connection =
  remoteDescription :: "string option"
  localDescription :: "string option"
  added :: "string list"
  pc_closed :: bool

text \<open>
  The component. The refs: \<^verbatim>\<open>peerConnectionsRef\<close> and
  \<^verbatim>\<open>pendingCandidatesRef\<close> (maps keyed by the remote user's id). The React state:
  \<^verbatim>\<open>localStream\<close> (the tracks of the captured stream, \<open>None\<close> for
  \<^verbatim>\<open>null\<close>), \<^verbatim>\<open>error\<close> and the three flags. \<open>effect_stream\<close> is the
  value of \<^verbatim>\<open>localStream\<close> in the render whose effect registered the socket
  listeners and returned the cleanup: a closure reads the state of the render that created
  it. \<open>live\<close> are the tracks that still capture, \<open>emitted\<close> the socket events sent
  (event name, addressee, signal), \<open>closed\<close> whether \<^verbatim>\<open>onClose\<close> was called.
\<close>

record call_client =
  peerConnections :: "string \<rightharpoonup> peer_connection"
  pendingCandidates :: "string \<rightharpoonup> string list"
  localStream :: "nat list option"
  effect_stream :: "nat list option"
  live :: "nat set"
  call_error :: "string option"
  isIncomingCall :: bool
  isCallActive :: bool
  isConnecting :: bool
  emitted :: "(string \<times> string option \<times> signal option) list"
  closed :: bool

text \<open>
  The first render: \<^verbatim>\<open>useState(null)\<close> for the stream, empty maps. The effect
  (dependencies \<^verbatim>\<open>[callType]\<close>) runs after this render, so its closures hold
  \<^verbatim>\<open>localStream = null\<close>; \<^verbatim>\<open>initializeCall\<close> then captures the media and
  calls \<^verbatim>\<open>setLocalStream(stream)\<close>, which changes the state of later renders only.
\<close>

definition first_render :: call_client where
  "first_render =
     \<lparr> peerConnections = Map.empty, pendingCandidates = Map.empty, localStream = None,
       effect_stream = None, live = {}, call_error = None, isIncomingCall = False,
       isCallActive = False, isConnecting = False, emitted = [], closed = False \<rparr>"

definition initializeCall :: "nat list option \<Rightarrow> call_client \<Rightarrow> call_client" where
  "initializeCall media st =
     (case media of
        None \<Rightarrow>
          st\<lparr> call_error := Some ''Failed to access camera/microphone. Please check permissions.'' \<rparr>
      | Some tracks \<Rightarrow> st\<lparr> localStream := Some tracks, live := live st \<union> set tracks \<rparr>)"

definition new_peer_connection :: peer_connection where
  "new_peer_connection =
     \<lparr> remoteDescription = None, localDescription = None, added = [], pc_closed = False \<rparr>"

definition createPeerConnection :: "string \<Rightarrow> call_client \<Rightarrow> call_client" where
  "createPeerConnection target st =
     st\<lparr> peerConnections := (peerConnections st)(target \<mapsto> new_peer_connection) \<rparr>"

definition handleIncomingGroupCall :: "call_client \<Rightarrow> call_client" where
  "handleIncomingGroupCall st = st\<lparr> isIncomingCall := True \<rparr>"

definition acceptGroupCall :: "string \<Rightarrow> call_client \<Rightarrow> call_client" where
  "acceptGroupCall caller st =
     (createPeerConnection caller (st\<lparr> isIncomingCall := False, isConnecting := True \<rparr>))
       \<lparr> emitted := emitted st @ [(''groupCallAccepted'', Some caller, None)] \<rparr>"

text \<open>
  \<^verbatim>\<open>handleGroupCallSignal\<close>. \<open>sdp_ok\<close> tells whether the browser accepts a
  description (\<^verbatim>\<open>setRemoteDescription\<close> rejects a malformed one, which lands in the
  outer \<^verbatim>\<open>catch\<close>); \<open>answer_of\<close> is the answer \<^verbatim>\<open>createAnswer\<close> produces.
  A rejected \<^verbatim>\<open>addIceCandidate\<close> is caught and logged per candidate, so \<open>added\<close>
  records the call. The queue read by \<^verbatim>\<open>get(data.from) || []\<close> is empty when the
  key is absent.
\<close>

definition pending_of :: "call_client \<Rightarrow> string \<Rightarrow> string list" where
  "pending_of st from = (case pendingCandidates st from of None \<Rightarrow> [] | Some q \<Rightarrow> q)"

definition handleGroupCallSignal ::
  "(string \<Rightarrow> bool) \<Rightarrow> (string \<Rightarrow> string) \<Rightarrow> string \<Rightarrow> signal \<Rightarrow> call_client \<Rightarrow> call_client" where
  "handleGroupCallSignal sdp_ok answer_of from sig st =
     (case peerConnections st from of
        None \<Rightarrow> st
      | Some pc \<Rightarrow>
          (case sig of
             Offer sdp \<Rightarrow>
               if sdp_ok sdp
               then st\<lparr> peerConnections := (peerConnections st)
                           (from \<mapsto> pc\<lparr> remoteDescription := Some sdp,
                                        localDescription := Some (answer_of sdp) \<rparr>),
                         emitted := emitted st
                           @ [(''groupCallSignal'', Some from, Some (Answer (answer_of sdp)))] \<rparr>
               else st\<lparr> call_error := Some ''Connection error occurred'' \<rparr>
           | Answer sdp \<Rightarrow>
               if sdp_ok sdp
               then st\<lparr> peerConnections := (peerConnections st)
                           (from \<mapsto> pc\<lparr> remoteDescription := Some sdp,
                                        added := added pc @ pending_of st from \<rparr>),
                         pendingCandidates := (pendingCandidates st)(from \<mapsto> []) \<rparr>
               else st\<lparr> call_error := Some ''Connection error occurred'' \<rparr>
           | Candidate c \<Rightarrow>
               if remoteDescription pc \<noteq> None
               then st\<lparr> peerConnections := (peerConnections st)
                           (from \<mapsto> pc\<lparr> added := added pc @ [c] \<rparr>) \<rparr>
               else st\<lparr> pendingCandidates := (pendingCandidates st)
                           (from \<mapsto> pending_of st from @ [c]) \<rparr>
           | OtherSignal \<Rightarrow> st))"

text \<open>The signals a client handles, one after the other.\<close>

definition handle_signals ::
  "(string \<Rightarrow> bool) \<Rightarrow> (string \<Rightarrow> string) \<Rightarrow> (string \<times> signal) list \<Rightarrow> call_client \<Rightarrow> call_client" where
  "handle_signals sdp_ok answer_of sigs st =
     foldl (\<lambda>s fs. handleGroupCallSignal sdp_ok answer_of (fst fs) (snd fs) s) st sigs"

text \<open>
  Releasing the capture: \<^verbatim>\<open>if (localStream) localStream.getTracks().forEach(track => track.stop())\<close>,
  on the \<^verbatim>\<open>localStream\<close> the running closure holds.
\<close>

definition stop_tracks :: "nat list option \<Rightarrow> call_client \<Rightarrow> call_client" where
  "stop_tracks captured st =
     (case captured of None \<Rightarrow> st | Some tracks \<Rightarrow> st\<lparr> live := live st - set tracks \<rparr>)"

definition close_all :: "(string \<rightharpoonup> peer_connection) \<Rightarrow> (string \<rightharpoonup> peer_connection)" where
  "close_all pcs = (\<lambda>k. map_option (\<lambda>pc. pc\<lparr> pc_closed := True \<rparr>) (pcs k))"

text \<open>
  \<^verbatim>\<open>endCall\<close> as a closure holding \<open>captured\<close> for \<^verbatim>\<open>localStream\<close>: the
  button's handler belongs to the current render (\<open>captured = localStream st\<close>), the one
  \<^verbatim>\<open>handleGroupCallEnded\<close> calls was created with the socket listeners
  (\<open>captured = effect_stream st\<close>).
\<close>

definition endCall :: "nat list option \<Rightarrow> call_client \<Rightarrow> call_client" where
  "endCall captured st =
     (stop_tracks captured
        (st\<lparr> peerConnections := Map.empty, pendingCandidates := Map.empty \<rparr>))
       \<lparr> isCallActive := False, isConnecting := False,
         emitted := emitted st @ [(''groupCallEnded'', None, None)], closed := True \<rparr>"

definition endCall_button :: "call_client \<Rightarrow> call_client" where
  "endCall_button st = endCall (localStream st) st"

definition handleGroupCallEnded :: "call_client \<Rightarrow> call_client" where
  "handleGroupCallEnded st = endCall (effect_stream st) st"

definition rejectGroupCall :: "string \<Rightarrow> call_client \<Rightarrow> call_client" where
  "rejectGroupCall caller st =
     st\<lparr> isIncomingCall := False,
         emitted := emitted st @ [(''groupCallRejected'', Some caller, None)], closed := True \<rparr>"

definition handleGroupCallRejected :: "call_client \<Rightarrow> call_client" where
  "handleGroupCallRejected st = st\<lparr> call_error := Some ''Call was rejected'', closed := True \<rparr>"

text \<open>The cleanup the effect returned, run when the component unmounts.\<close>

definition effect_cleanup :: "call_client \<Rightarrow> call_client" where
  "effect_cleanup st =
     (stop_tracks (effect_stream st) st)\<lparr> peerConnections := close_all (peerConnections st) \<rparr>"

section \<open>Client reconciliation (RoomChat in unnamed/part_000, PrivateChat in unnamed/part_001)\<close>





text \<open>
  What the private chat reads of a message object: \<^verbatim>\<open>sender._id\<close>,
  \<^verbatim>\<open>receiver._id\<close>, \<^verbatim>\<open>clientMsgId\<close>, \<^verbatim>\<open>isTemp\<close> (absent on what the
  server sends, so false), \<^verbatim>\<open>text\<close> and \<^verbatim>\<open>createdAt\<close> as a time.
\<close>

record chat_entry =
  ce_id :: "string option"
  ce_clientMsgId :: "string option"
  ce_sender :: string
  ce_receiver :: string
  ce_text :: string
  ce_createdAt :: time
  ce_isTemp :: bool





section \<open>Notions the properties are stated with\<close>


text \<open>
  What a JavaScript \<^verbatim>\<open>Map\<close> of \<^verbatim>\<open>Set\<close>s guarantees of its
  representation: no key twice, no element twice in a set.
\<close>

definition wf_activeRooms :: "(string \<times> string list) list \<Rightarrow> bool" where
  "wf_activeRooms m \<longleftrightarrow> distinct (map fst m) \<and> list_all (\<lambda>kv. distinct (snd kv)) m"

text \<open>The rooms a user is active in, in the map's order.\<close>

definition rooms_of :: "string \<Rightarrow> (string \<times> string list) list \<Rightarrow> string list" where
  "rooms_of u m = map fst (filter (\<lambda>kv. u \<in> set (snd kv)) m)"

text \<open>The collection with the document of \<open>m\<close>'s id replaced by \<open>m\<close> soft-deleted at time \<open>t\<close>.\<close>

definition soft_deleted :: "time \<Rightarrow> message \<Rightarrow> message list \<Rightarrow> message list" where
  "soft_deleted t m db = map (\<lambda>x. if m_id x = m_id m then mark_deleted t m else x) db"





text \<open>
  The correlation ids a private chat displays: the \<^verbatim>\<open>clientMsgId\<close> of its
  entries that have one, in list order.
\<close>

definition chat_ids :: "chat_entry list \<Rightarrow> string option list" where
  "chat_ids xs = filter truthy (map ce_clientMsgId xs)"

section \<open>Values for the examples\<close>

text \<open>
  The ids of the examples, in the text form of an \<^verbatim>\<open>ObjectId\<close>: two users, three
  rooms and the messages.
\<close>

abbreviation alice_id :: string where "alice_id \<equiv> ''a11ce0000000000000000001''"
abbreviation bob_id :: string where "bob_id \<equiv> ''b0b000000000000000000002''"
abbreviation room1_id :: string where "room1_id \<equiv> ''1c0000000000000000000000''"
abbreviation room2_id :: string where "room2_id \<equiv> ''2c0000000000000000000000''"
abbreviation room3_id :: string where "room3_id \<equiv> ''3c0000000000000000000000''"
abbreviation msg1_id :: string where "msg1_id \<equiv> ''4d0000000000000000000000''"
abbreviation msg2_id :: string where "msg2_id \<equiv> ''5d0000000000000000000000''"
abbreviation msg7_id :: string where "msg7_id \<equiv> ''7d0000000000000000000000''"

text \<open>A direct message of alice to bob, its draft, and a retry of the send with another text.\<close>

definition doc_hi :: message where
  "doc_hi = \<lparr> m_id = msg1_id, sender = alice_id, receiver = Some bob_id, room = None,
     body = ''hi'', clientMsgId = Some ''x1'', isDeleted = False, deletedAt = None,
     createdAt = 1000, updatedAt = 1000 \<rparr>"

definition draft_hi :: draft where
  "draft_hi = \<lparr> d_sender = Some alice_id, d_receiver = Some bob_id, d_room = None,
     d_text = ''hi'', d_clientMsgId = Some ''x1'' \<rparr>"

definition draft_retry :: draft where
  "draft_retry = \<lparr> d_sender = Some alice_id, d_receiver = Some bob_id, d_room = None,
     d_text = ''hi again'', d_clientMsgId = Some ''x1'' \<rparr>"

text \<open>A server and two sockets for the examples: alice and bob, both joined to room \<open>r1\<close>.\<close>

definition alice_sock :: socket where
  "alice_sock = \<lparr> socket_id = 1, userId = alice_id, socket_username = ''Alice'' \<rparr>"

definition bob_sock :: socket where
  "bob_sock = \<lparr> socket_id = 2, userId = bob_id, socket_username = ''Bob'' \<rparr>"

definition alice_doc :: user_doc where
  "alice_doc = \<lparr> username = ''Alice'', avatar = ''a.png'', online = True, lastSeen = None \<rparr>"

definition bob_doc :: user_doc where
  "bob_doc = \<lparr> username = ''Bob'', avatar = ''b.png'', online = True, lastSeen = None \<rparr>"


definition env_ok :: env where
  "env_ok = \<lparr> now = 1000, saved_at = 1001, new_id = msg1_id, store_up = True, populate_up = True \<rparr>"

definition env_down :: env where
  "env_down = \<lparr> now = 1000, saved_at = 1001, new_id = msg1_id, store_up = False, populate_up = True \<rparr>"






text \<open>The tokens the example server accepts: one, of alice.\<close>

definition verify_demo :: "string \<Rightarrow> (string \<times> string) option" where
  "verify_demo tk = (if tk = ''token-alice'' then Some (alice_id, ''Alice'') else None)"




text \<open>
  A second example server: alice is connected twice (sockets 1 and 3, two tabs), bob once;
  alice is active in rooms \<open>r1\<close> (with bob) and \<open>r2\<close> (alone), bob also in \<open>r3\<close>.
\<close>

definition alice_tab :: socket where
  "alice_tab = \<lparr> socket_id = 3, userId = alice_id, socket_username = ''Alice'' \<rparr>"

definition srv1 :: server where
  "srv1 =
     \<lparr> sockets = [alice_sock, bob_sock, alice_tab],
       rooms = (\<lambda>r. if r = alice_id then {1, 3} else if r = bob_id then {2}
                     else if r = room1_id then {1, 2} else if r = room2_id then {1}
                     else if r = room3_id then {2} else {}),
       activeRooms = [(room1_id, [alice_id, bob_id]), (room2_id, [alice_id]), (room3_id, [bob_id])],
       users = [alice_id \<mapsto> alice_doc, bob_id \<mapsto> bob_doc],
       messages = [] \<rparr>"









text \<open>A client that has captured two tracks and is being called by bob.\<close>

definition ringing :: call_client where
  "ringing = handleIncomingGroupCall (initializeCall (Some [1, 2]) first_render)"









chapter \<open>Properties\<close>

section \<open>The store\<close>

lemma example_objectIds [simp]:
  "objectId alice_id" "objectId bob_id" "objectId room1_id" "objectId room2_id"
  "objectId room3_id" "objectId msg1_id" "objectId msg2_id" "objectId msg7_id"
  by (simp_all add: objectId_def hex_digit_def)

lemma objectId_not_short: "length x \<noteq> 24 \<Longrightarrow> \<not> objectId x"
  by (simp add: objectId_def)

lemma indexed_clientMsgIds_Nil [simp]: "indexed_clientMsgIds [] = []"
  by (simp add: indexed_clientMsgIds_def)

lemma indexed_clientMsgIds_Cons:
  "indexed_clientMsgIds (m # ms) =
     (case clientMsgId m of None \<Rightarrow> indexed_clientMsgIds ms | Some x \<Rightarrow> x # indexed_clientMsgIds ms)"
  by (simp add: indexed_clientMsgIds_def split: option.splits)

lemma indexed_clientMsgIds_append:
  "indexed_clientMsgIds (xs @ ys) = indexed_clientMsgIds xs @ indexed_clientMsgIds ys"
  by (induction xs) (simp_all add: indexed_clientMsgIds_Cons split: option.splits)

lemma set_indexed_clientMsgIds:
  "x \<in> set (indexed_clientMsgIds db) \<longleftrightarrow> Some x \<in> set (map clientMsgId db)"
  by (induction db) (auto simp: indexed_clientMsgIds_Cons split: option.splits)

lemma findOneAndUpdate_map_clientMsgId:
  "map clientMsgId (snd (findOneAndUpdate t mid uid db)) = map clientMsgId db"
  by (induction db) (simp_all add: mark_deleted_def)

lemma findOneAndUpdate_indexed:
  "indexed_clientMsgIds (snd (findOneAndUpdate t mid uid db)) = indexed_clientMsgIds db"
  by (induction db) (simp_all add: indexed_clientMsgIds_Cons mark_deleted_def split: option.splits)

lemma findOneAndDelete_indexed_subset:
  "set (indexed_clientMsgIds (snd (findOneAndDelete mid uid db))) \<subseteq> set (indexed_clientMsgIds db)"
  by (induction db) (auto simp: indexed_clientMsgIds_Cons split: option.splits)

lemma findOneAndDelete_indexed_distinct:
  "distinct (indexed_clientMsgIds db) \<Longrightarrow>
   distinct (indexed_clientMsgIds (snd (findOneAndDelete mid uid db)))"
proof (induction db)
  case Nil
  then show ?case by simp
next
  case (Cons m ms)
  show ?case
  proof (cases "m_id m = mid \<and> sender m = uid")
    case True
    with Cons.prems show ?thesis
      by (auto simp: indexed_clientMsgIds_Cons split: option.splits)
  next
    case False
    with Cons findOneAndDelete_indexed_subset [of mid uid ms] show ?thesis
      by (auto simp: indexed_clientMsgIds_Cons split: option.splits)
  qed
qed

lemma save_Inr_iff:
  "save t oid up db d = Inr (doc, db') \<longleftrightarrow>
     (\<exists>s. d_sender d = Some s \<and> d_text d \<noteq> [] \<and> objectId s
        \<and> castObjectId (d_receiver d) \<and> castObjectId (d_room d) \<and> up \<and> index_id_free db oid
        \<and> index_clientMsgId_free db (d_clientMsgId d)
        \<and> index_compound_free db (new_message t oid s d)
        \<and> doc = new_message t oid s d \<and> db' = db @ [doc])"
  by (auto simp: save_def split: option.splits)

lemma save_indexed_distinct:
  assumes "distinct (indexed_clientMsgIds db)" and "save t oid up db d = Inr (doc, db')"
  shows "distinct (indexed_clientMsgIds db')"
proof -
  from assms(2) obtain s where free: "index_clientMsgId_free db (d_clientMsgId d)"
    and doc: "doc = new_message t oid s d" and db': "db' = db @ [doc]"
    unfolding save_Inr_iff by blast
  have c: "clientMsgId doc = d_clientMsgId d"
    by (simp add: doc new_message_def)
  show ?thesis
  proof (cases "d_clientMsgId d")
    case None
    with assms(1) c db' show ?thesis
      by (simp add: indexed_clientMsgIds_append indexed_clientMsgIds_Cons)
  next
    case (Some x)
    with free have "x \<notin> set (indexed_clientMsgIds db)"
      by (simp add: index_clientMsgId_free_def set_indexed_clientMsgIds)
    with assms(1) c db' Some show ?thesis
      by (simp add: indexed_clientMsgIds_append indexed_clientMsgIds_Cons)
  qed
qed

lemma reachable_db_indexed_distinct:
  "reachable_db db \<Longrightarrow> distinct (indexed_clientMsgIds db)"
proof (induction rule: reachable_db.induct)
  case db_empty
  show ?case by simp
next
  case (db_save db t oid up d doc db')
  then show ?case by (blast intro: save_indexed_distinct)
next
  case (db_update db t mid uid)
  then show ?case by (simp add: findOneAndUpdate_indexed)
next
  case (db_delete db mid uid)
  from db_delete.IH show ?case by (rule findOneAndDelete_indexed_distinct)
qed

lemma indexed_distinct_nth:
  "distinct (indexed_clientMsgIds db) \<Longrightarrow> i < j \<Longrightarrow> j < length db \<Longrightarrow>
   clientMsgId (db ! i) = Some x \<Longrightarrow> clientMsgId (db ! j) \<noteq> Some x"
proof (induction db arbitrary: i j)
  case Nil
  then show ?case by simp
next
  case (Cons m ms)
  obtain j' where j: "j = Suc j'"
    using Cons.prems(2) by (cases j) auto
  show ?case
  proof (cases i)
    case 0
    with Cons.prems j have "clientMsgId m = Some x" and "j' < length ms"
      and "x \<notin> set (indexed_clientMsgIds ms)"
      by (auto simp: indexed_clientMsgIds_Cons)
    then have "Some x \<noteq> clientMsgId (ms ! j')"
      by (metis nth_mem image_eqI set_indexed_clientMsgIds set_map)
    with j show ?thesis by simp
  next
    case (Suc i')
    with Cons.prems j have "distinct (indexed_clientMsgIds ms)" "i' < j'" "j' < length ms"
      "clientMsgId (ms ! i') = Some x"
      by (auto simp: indexed_clientMsgIds_Cons split: option.splits)
    from Cons.IH [OF this] j show ?thesis by simp
  qed
qed

lemma save_retry_rejected:
  assumes "m \<in> set db" and "clientMsgId m = Some x" and "d_clientMsgId d = Some x"
  shows "\<exists>e. save t oid up db d = Inl e"
proof -
  from assms(1,2) have "Some x \<in> set (map clientMsgId db)"
    by force
  with assms(3) have "\<not> index_clientMsgId_free db (d_clientMsgId d)"
    by (simp add: index_clientMsgId_free_def)
  then show ?thesis
    by (simp add: save_def split: option.splits)
qed

lemma compound_clash_is_clientMsgId_clash:
  assumes "clientMsgId doc = Some x" and "\<not> index_compound_free db doc"
  shows "\<not> index_clientMsgId_free db (Some x)"
proof -
  from assms(2) obtain m where "m \<in> set db" and "index_tuple m = index_tuple doc"
    by (auto simp: index_compound_free_def)
  with assms(1) have "m \<in> set db" and "clientMsgId m = Some x"
    by (simp_all add: index_tuple_def)
  then have "Some x \<in> set (map clientMsgId db)"
    by force
  then show ?thesis
    by (simp add: index_clientMsgId_free_def)
qed

lemma save_draft_hi: "save 1000 msg1_id True [] draft_hi = Inr (doc_hi, [doc_hi])"
  by (simp add: save_def draft_hi_def doc_hi_def new_message_def index_id_free_def
      index_clientMsgId_free_def index_compound_free_def castObjectId_def)

lemma reachable_doc_hi: "reachable_db [doc_hi]"
  using db_save [OF db_empty save_draft_hi] .

lemma retry_passes_compound_index:
  "index_compound_free [doc_hi] (new_message 2000 msg2_id alice_id draft_retry)
   \<and> \<not> index_clientMsgId_free [doc_hi] (d_clientMsgId draft_retry)"
  by (simp add: index_compound_free_def index_clientMsgId_free_def index_tuple_def
      new_message_def draft_retry_def doc_hi_def)

text \<open>
  Claim C10. In every collection the program can produce, two different documents that
  carry a \<^verbatim>\<open>clientMsgId\<close> carry different ones; a save that reuses the
  \<^verbatim>\<open>clientMsgId\<close> of a persisted document is rejected, whatever its text, its
  \<^verbatim>\<open>_id\<close> and its time; and the guard is strictly stronger than the five-field
  compound index: a document with a \<^verbatim>\<open>clientMsgId\<close> that the compound index
  rejects is rejected by the \<^verbatim>\<open>clientMsgId\<close> index too, while some retried send
  passes the compound index and is stopped by the \<^verbatim>\<open>clientMsgId\<close> index alone.
\<close>

theorem clientMsgId_unique_in_store:
  assumes "reachable_db db"
  shows "(\<forall>i j x. i < length db \<and> j < length db \<and> i \<noteq> j \<and> clientMsgId (db ! i) = Some x
            \<longrightarrow> clientMsgId (db ! j) \<noteq> Some x)
       \<and> (\<forall>m x (d::draft) t oid up. m \<in> set db \<and> clientMsgId m = Some x \<and> d_clientMsgId d = Some x
            \<longrightarrow> (\<exists>e. save t oid up db d = Inl e))
       \<and> (\<forall>doc x. clientMsgId doc = Some x \<and> \<not> index_compound_free db doc
            \<longrightarrow> \<not> index_clientMsgId_free db (Some x))
       \<and> (\<exists>db0 (d::draft) t oid s. reachable_db db0 \<and> d_sender d = Some s
            \<and> index_compound_free db0 (new_message t oid s d)
            \<and> \<not> index_clientMsgId_free db0 (d_clientMsgId d))"
proof (intro conjI allI impI)
  fix i j x
  assume h: "i < length db \<and> j < length db \<and> i \<noteq> j \<and> clientMsgId (db ! i) = Some x"
  have d: "distinct (indexed_clientMsgIds db)"
    using assms by (rule reachable_db_indexed_distinct)
  show "clientMsgId (db ! j) \<noteq> Some x"
  proof (cases "i < j")
    case True
    with h d indexed_distinct_nth [of db i j x] show ?thesis by blast
  next
    case False
    with h have "j < i" by simp
    with h d indexed_distinct_nth [of db j i x] show ?thesis by blast
  qed
next
  fix m x and d :: draft and t oid up
  assume "m \<in> set db \<and> clientMsgId m = Some x \<and> d_clientMsgId d = Some x"
  then show "\<exists>e. save t oid up db d = Inl e"
    by (blast intro: save_retry_rejected)
next
  fix doc x
  assume "clientMsgId doc = Some x \<and> \<not> index_compound_free db doc"
  with compound_clash_is_clientMsgId_clash [of doc x db]
  show "\<not> index_clientMsgId_free db (Some x)"
    by blast
next
  have "d_sender draft_retry = Some alice_id"
    by (simp add: draft_retry_def)
  with reachable_doc_hi retry_passes_compound_index
  show "\<exists>db0 (d::draft) t oid s. reachable_db db0 \<and> d_sender d = Some s
            \<and> index_compound_free db0 (new_message t oid s d)
            \<and> \<not> index_clientMsgId_free db0 (d_clientMsgId d)"
    by blast
qed

theorem clientMsgId_unique_in_store_witness:
  "reachable_db [doc_hi] \<and> (\<exists>e. save 2000 msg2_id True [doc_hi] draft_retry = Inl e)"
proof -
  have "doc_hi \<in> set [doc_hi] \<and> clientMsgId doc_hi = Some ''x1''
        \<and> d_clientMsgId draft_retry = Some ''x1''"
    by (simp add: doc_hi_def draft_retry_def)
  with clientMsgId_unique_in_store [OF reachable_doc_hi] reachable_doc_hi
  show ?thesis by blast
qed

section \<open>What a socket receives\<close>

lemma inbox_Nil [simp]: "inbox st c [] = []"
  by (simp add: inbox_def)

lemma inbox_Cons [simp]:
  "inbox st c (x # es) = (if reaches st c (fst x) then snd x # inbox st c es else inbox st c es)"
  by (simp add: inbox_def)

section \<open>Presence\<close>

lemma connect_accepted:
  assumes "verify tk = Some (uid, uname)" and "tk \<noteq> []" and "store_up e"
  shows "connect verify e c (Some tk) s =
           Inr (s\<lparr> users := findByIdAndUpdate uid True None (users s),
                   sockets := sockets s @ [\<lparr> socket_id = c, userId = uid, socket_username = uname \<rparr>],
                   rooms := (rooms s)(uid := insert c (rooms s uid)) \<rparr>,
                [(Broadcast c, UserOnline uid)])"
  using assms by (simp add: connect_def)

lemma disconnect_users:
  "store_up e \<Longrightarrow>
   users (fst (disconnect e sock s)) = findByIdAndUpdate (userId sock) False (Some (now e)) (users s)"
  by (simp add: disconnect_def Let_def)

lemma disconnect_sockets:
  "sockets (fst (disconnect e sock s)) = filter (\<lambda>x. socket_id x \<noteq> socket_id sock) (sockets s)"
  by (simp add: disconnect_def Let_def)

text \<open>
  Claim C4, as the code has it. An accepted handshake of a token for user \<open>uid\<close> sets
  the user's \<^verbatim>\<open>online\<close> to true and clears \<^verbatim>\<open>lastSeen\<close>, and registers
  the socket. Every disconnect whose presence update the store answers sets the user's
  \<^verbatim>\<open>online\<close> to false and \<^verbatim>\<open>lastSeen\<close> to the current time, in every
  state: the handler never looks at the other sockets of the user, so this also holds
  while another socket of the same user stays connected.
\<close>

theorem presence_follows_each_socket:
  assumes "users s uid = Some u"
  shows "(verify tk = Some (uid, uname) \<and> tk \<noteq> [] \<and> store_up e \<longrightarrow>
            (\<exists>s' out. connect verify e c (Some tk) s = Inr (s', out)
               \<and> users s' uid = Some (u\<lparr> online := True, lastSeen := None \<rparr>)
               \<and> \<lparr> socket_id = c, userId = uid, socket_username = uname \<rparr> \<in> set (sockets s')))
       \<and> (userId sock = uid \<and> store_up e \<longrightarrow>
            users (fst (disconnect e sock s)) uid
              = Some (u\<lparr> online := False, lastSeen := Some (now e) \<rparr>)
            \<and> sockets (fst (disconnect e sock s))
              = filter (\<lambda>x. socket_id x \<noteq> socket_id sock) (sockets s))"
proof (rule conjI; rule impI)
  assume "verify tk = Some (uid, uname) \<and> tk \<noteq> [] \<and> store_up e"
  then have "connect verify e c (Some tk) s =
           Inr (s\<lparr> users := findByIdAndUpdate uid True None (users s),
                   sockets := sockets s @ [\<lparr> socket_id = c, userId = uid, socket_username = uname \<rparr>],
                   rooms := (rooms s)(uid := insert c (rooms s uid)) \<rparr>,
                [(Broadcast c, UserOnline uid)])"
    by (simp add: connect_accepted)
  with assms show "\<exists>s' out. connect verify e c (Some tk) s = Inr (s', out)
               \<and> users s' uid = Some (u\<lparr> online := True, lastSeen := None \<rparr>)
               \<and> \<lparr> socket_id = c, userId = uid, socket_username = uname \<rparr> \<in> set (sockets s')"
    by (simp add: findByIdAndUpdate_def)
next
  assume "userId sock = uid \<and> store_up e"
  with assms show "users (fst (disconnect e sock s)) uid
              = Some (u\<lparr> online := False, lastSeen := Some (now e) \<rparr>)
            \<and> sockets (fst (disconnect e sock s))
              = filter (\<lambda>x. socket_id x \<noteq> socket_id sock) (sockets s)"
    by (simp add: disconnect_users disconnect_sockets findByIdAndUpdate_def)
qed

lemma srv1_alice: "users srv1 alice_id = Some alice_doc"
  by (simp add: srv1_def)

theorem presence_follows_each_socket_witness:
  "users srv1 alice_id = Some alice_doc
   \<and> userId alice_sock = alice_id \<and> store_up env_ok
   \<and> users (fst (disconnect env_ok alice_sock srv1)) alice_id
       = Some (alice_doc\<lparr> online := False, lastSeen := Some (now env_ok) \<rparr>)
   \<and> verify_demo ''token-alice'' = Some (alice_id, ''Alice'')
   \<and> (\<exists>s' out. connect verify_demo env_ok 4 (Some ''token-alice'') srv1 = Inr (s', out)
        \<and> users s' alice_id = Some (alice_doc\<lparr> online := True, lastSeen := None \<rparr>))"
proof -
  have h: "userId alice_sock = alice_id \<and> store_up env_ok"
    and v: "verify_demo ''token-alice'' = Some (alice_id, ''Alice'') \<and> ''token-alice'' \<noteq> []
            \<and> store_up env_ok"
    by (simp_all add: alice_sock_def env_ok_def verify_demo_def)
  note inst = presence_follows_each_socket [OF srv1_alice,
      of verify_demo "''token-alice''" "''Alice''" env_ok 4 alice_sock]
  from inst h have "users (fst (disconnect env_ok alice_sock srv1)) alice_id
       = Some (alice_doc\<lparr> online := False, lastSeen := Some (now env_ok) \<rparr>)"
    by blast
  moreover from inst v have "\<exists>s' out. connect verify_demo env_ok 4 (Some ''token-alice'') srv1 = Inr (s', out)
        \<and> users s' alice_id = Some (alice_doc\<lparr> online := True, lastSeen := None \<rparr>)"
    by blast
  ultimately show ?thesis
    using h v srv1_alice by blast
qed

text \<open>
  The claim as stated fails: alice has two live sockets; when socket 1 disconnects, socket 3
  of alice is still connected, and alice is marked offline.
\<close>

theorem presence_offline_with_live_socket:
  "alice_tab \<in> set (sockets (fst (disconnect env_ok alice_sock srv1)))
   \<and> userId alice_tab = userId alice_sock
   \<and> map_option online (users (fst (disconnect env_ok alice_sock srv1)) (userId alice_sock))
       = Some False"
  by (simp add: disconnect_users disconnect_sockets findByIdAndUpdate_def env_ok_def srv1_def
      alice_sock_def alice_tab_def bob_sock_def alice_doc_def)

section \<open>Leaving every room on disconnection\<close>

lemma leaveAllRooms_emits:
  "snd (leaveAllRooms u n m) = map (\<lambda>r. (ToRoom r, UserLeftRoom u n r)) (rooms_of u m)"
  by (induction m) (auto simp: rooms_of_def)

lemma rooms_of_distinct: "distinct (map fst m) \<Longrightarrow> distinct (rooms_of u m)"
  by (simp add: rooms_of_def distinct_map_filter)

lemma map_get_Cons:
  "map_get r ((k, us) # m) = (if r = k then us else map_get r m)"
  by (simp add: map_get_def)


lemma rooms_of_iff:
  "distinct (map fst m) \<Longrightarrow> r \<in> set (rooms_of u m) \<longleftrightarrow> u \<in> set (map_get r m)"
proof (induction m)
  case Nil
  then show ?case by (simp add: rooms_of_def map_get_def)
next
  case (Cons kv m)
  obtain k us where kv: "kv = (k, us)" by (cases kv)
  from Cons.prems kv have k: "k \<notin> set (map fst m)" and d: "distinct (map fst m)"
    by simp_all
  have "k \<notin> set (rooms_of u m)"
    using k by (auto simp: rooms_of_def)
  with Cons.IH [OF d] kv show ?case
    by (auto simp: map_get_Cons rooms_of_def)
qed

lemma leaveAllRooms_keys: "set (map fst (fst (leaveAllRooms u n m))) \<subseteq> set (map fst m)"
  by (induction m) (auto split: if_splits simp: image_subset_iff)

lemma leaveAllRooms_map_of:
  "distinct (map fst m) \<Longrightarrow>
   map_of (fst (leaveAllRooms u n m)) r =
     (case map_of m r of
        None \<Rightarrow> None
      | Some us \<Rightarrow>
          if u \<in> set us then (if set_delete u us = [] then None else Some (set_delete u us))
          else Some us)"
proof (induction m)
  case Nil
  then show ?case by simp
next
  case (Cons kv m)
  obtain k us where kv: "kv = (k, us)" by (cases kv)
  from Cons.prems kv have k: "k \<notin> set (map fst m)" and d: "distinct (map fst m)"
    by simp_all
  from k leaveAllRooms_keys [of u n m] have "k \<notin> set (map fst (fst (leaveAllRooms u n m)))"
    by blast
  then have none: "map_of (fst (leaveAllRooms u n m)) k = None"
    by (simp add: map_of_eq_None_iff)
  show ?case
  proof (cases "r = k")
    case True
    with none kv show ?thesis by simp
  next
    case False
    with Cons.IH [OF d] kv show ?thesis by simp
  qed
qed

lemma leaveAllRooms_map_get:
  assumes "distinct (map fst m)" and "u \<in> set (map_get r m)"
  shows "map_get r (fst (leaveAllRooms u n m)) = set_delete u (map_get r m)"
proof -
  from assms(2) obtain us where "map_of m r = Some us" and "u \<in> set us"
    by (cases "map_of m r") (auto simp: map_get_def)
  with leaveAllRooms_map_of [OF assms(1), of u n r] show ?thesis
    by (simp add: map_get_def)
qed

lemma leaveAllRooms_map_has:
  assumes "distinct (map fst m)" and "u \<in> set (map_get r m)"
  shows "map_has r (fst (leaveAllRooms u n m)) \<longleftrightarrow> set_delete u (map_get r m) \<noteq> []"
proof -
  have "map_has r (fst (leaveAllRooms u n m)) \<longleftrightarrow> map_of (fst (leaveAllRooms u n m)) r \<noteq> None"
    by (simp add: map_has_def map_of_eq_None_iff)
  moreover from assms(2) obtain us where "map_of m r = Some us" and "u \<in> set us"
    by (cases "map_of m r") (auto simp: map_get_def)
  ultimately show ?thesis
    using leaveAllRooms_map_of [OF assms(1), of u n r] by (simp add: map_get_def)
qed

lemma leaveAllRooms_other_rooms:
  assumes "distinct (map fst m)" and "u \<notin> set (map_get r m)"
  shows "map_of (fst (leaveAllRooms u n m)) r = map_of m r"
proof (cases "map_of m r")
  case None
  with leaveAllRooms_map_of [OF assms(1), of u n r] show ?thesis
    by simp
next
  case (Some us)
  with assms(2) have "u \<notin> set us"
    by (simp add: map_get_def)
  with Some leaveAllRooms_map_of [OF assms(1), of u n r] show ?thesis
    by simp
qed

lemma wf_activeRooms_member_distinct:
  "wf_activeRooms m \<Longrightarrow> distinct (map_get r m)"
proof -
  assume wf: "wf_activeRooms m"
  show ?thesis
  proof (cases "map_of m r")
    case None
    then show ?thesis by (simp add: map_get_def)
  next
    case (Some us)
    then have "(r, us) \<in> set m" by (rule map_of_SomeD)
    with wf have "distinct us"
      by (auto simp: wf_activeRooms_def list_all_iff)
    with Some show ?thesis by (simp add: map_get_def)
  qed
qed

lemma set_delete_length:
  "distinct us \<Longrightarrow> u \<in> set us \<Longrightarrow> Suc (length (set_delete u us)) = length us"
  by (simp add: set_delete_def distinct_remove1_removeAll [symmetric] length_remove1)
     (metis Suc_pred length_pos_if_in_set)

lemma count_list_distinct:
  "distinct xs \<Longrightarrow> count_list xs x = (if x \<in> set xs then 1 else 0)"
  by (induction xs) auto

lemma count_left_emits:
  assumes "distinct rs"
  shows "count_list (map (\<lambda>r. (ToRoom r, UserLeftRoom u n r)) rs) (ToRoom r, UserLeftRoom u n r)
           = (if r \<in> set rs then 1 else 0)"
proof -
  have inj: "inj (\<lambda>r. (ToRoom r, UserLeftRoom u n r))"
    by (simp add: inj_def)
  then have "distinct (map (\<lambda>r. (ToRoom r, UserLeftRoom u n r)) rs)"
    using assms by (simp add: distinct_map inj_on_def)
  then show ?thesis
    using inj by (auto simp: count_list_distinct inj_def)
qed

lemma disconnect_up:
  assumes "store_up e"
  shows "activeRooms (fst (disconnect e sock s))
           = fst (leaveAllRooms (userId sock) (socket_username sock) (activeRooms s))"
    and "snd (disconnect e sock s)
           = (Broadcast (socket_id sock), UserOffline (userId sock))
               # snd (leaveAllRooms (userId sock) (socket_username sock) (activeRooms s))"
  using assms by (simp_all add: disconnect_def Let_def)

text \<open>
  When a socket is lost and the handler's presence update is answered, the handler
  emits, after the \<^verbatim>\<open>userOffline\<close> broadcast, exactly one
  \<^verbatim>\<open>userLeftRoom\<close> to each room the socket's user was active in, in the map's
  order, and nothing else; in each such room the user is removed and the membership is
  one smaller; such a room stays in the map exactly when a member is left; and the entry
  of every other room is as before. The map is assumed well formed, as it is in every
  state the server reaches (lemma \<open>reachable_wf_activeRooms\<close>).
\<close>

lemma disconnect_leaves_every_room:
  assumes "wf_activeRooms (activeRooms s)" and "store_up e"
  shows
    "snd (disconnect e sock s) =
        (Broadcast (socket_id sock), UserOffline (userId sock))
          # map (\<lambda>r. (ToRoom r, UserLeftRoom (userId sock) (socket_username sock) r))
              (rooms_of (userId sock) (activeRooms s))
     \<and> (\<forall>r. count_list (snd (disconnect e sock s))
                (ToRoom r, UserLeftRoom (userId sock) (socket_username sock) r)
              = (if userId sock \<in> set (map_get r (activeRooms s)) then 1 else 0))
     \<and> (\<forall>r. userId sock \<in> set (map_get r (activeRooms s)) \<longrightarrow>
            map_get r (activeRooms (fst (disconnect e sock s)))
              = set_delete (userId sock) (map_get r (activeRooms s))
          \<and> userId sock \<notin> set (map_get r (activeRooms (fst (disconnect e sock s))))
          \<and> Suc (length (map_get r (activeRooms (fst (disconnect e sock s)))))
              = length (map_get r (activeRooms s))
          \<and> (map_has r (activeRooms (fst (disconnect e sock s)))
               \<longleftrightarrow> map_get r (activeRooms (fst (disconnect e sock s))) \<noteq> []))
     \<and> (\<forall>r. userId sock \<notin> set (map_get r (activeRooms s)) \<longrightarrow>
            map_of (activeRooms (fst (disconnect e sock s))) r = map_of (activeRooms s) r)"
proof -
  let ?u = "userId sock" and ?n = "socket_username sock" and ?m = "activeRooms s"
  from assms(1) have d: "distinct (map fst ?m)"
    by (simp add: wf_activeRooms_def)
  note run = disconnect_up [OF assms(2), of sock s]
  have emits: "snd (disconnect e sock s) =
        (Broadcast (socket_id sock), UserOffline ?u)
          # map (\<lambda>r. (ToRoom r, UserLeftRoom ?u ?n r)) (rooms_of ?u ?m)"
    by (simp add: run leaveAllRooms_emits)
  have once: "count_list (snd (disconnect e sock s)) (ToRoom r, UserLeftRoom ?u ?n r)
              = (if ?u \<in> set (map_get r ?m) then 1 else 0)" for r
    unfolding emits
    using count_left_emits [OF rooms_of_distinct [OF d, of ?u], of ?u ?n r]
      rooms_of_iff [OF d, of r ?u]
    by simp
  have member: "map_get r (activeRooms (fst (disconnect e sock s))) = set_delete ?u (map_get r ?m)
          \<and> ?u \<notin> set (map_get r (activeRooms (fst (disconnect e sock s))))
          \<and> Suc (length (map_get r (activeRooms (fst (disconnect e sock s))))) = length (map_get r ?m)
          \<and> (map_has r (activeRooms (fst (disconnect e sock s)))
               \<longleftrightarrow> map_get r (activeRooms (fst (disconnect e sock s))) \<noteq> [])"
    if "?u \<in> set (map_get r ?m)" for r
  proof -
    have g: "map_get r (activeRooms (fst (disconnect e sock s))) = set_delete ?u (map_get r ?m)"
      by (simp add: run leaveAllRooms_map_get [OF d that])
    moreover have "?u \<notin> set (set_delete ?u (map_get r ?m))"
      by (simp add: set_delete_def)
    moreover have "Suc (length (set_delete ?u (map_get r ?m))) = length (map_get r ?m)"
      using wf_activeRooms_member_distinct [OF assms(1)] that by (rule set_delete_length)
    moreover have "map_has r (activeRooms (fst (disconnect e sock s)))
               \<longleftrightarrow> set_delete ?u (map_get r ?m) \<noteq> []"
      by (simp add: run leaveAllRooms_map_has [OF d that])
    ultimately show ?thesis by simp
  qed
  have other: "map_of (activeRooms (fst (disconnect e sock s))) r = map_of ?m r"
    if "?u \<notin> set (map_get r ?m)" for r
    by (simp add: run leaveAllRooms_other_rooms [OF d that])
  from emits once member other show ?thesis
    by blast
qed

lemma srv1_wf: "wf_activeRooms (activeRooms srv1)"
  by (simp add: wf_activeRooms_def srv1_def)

lemma disconnect_leaves_every_room_example:
  "wf_activeRooms (activeRooms srv1) \<and> store_up env_ok
   \<and> snd (disconnect env_ok alice_sock srv1) =
       [(Broadcast 1, UserOffline alice_id),
        (ToRoom room1_id, UserLeftRoom alice_id ''Alice'' room1_id),
        (ToRoom room2_id, UserLeftRoom alice_id ''Alice'' room2_id)]
   \<and> userId alice_sock \<in> set (map_get room1_id (activeRooms srv1))
   \<and> map_get room1_id (activeRooms (fst (disconnect env_ok alice_sock srv1))) = [bob_id]
   \<and> userId alice_sock \<in> set (map_get room2_id (activeRooms srv1))
   \<and> \<not> map_has room2_id (activeRooms (fst (disconnect env_ok alice_sock srv1)))
   \<and> userId alice_sock \<notin> set (map_get room3_id (activeRooms srv1))
   \<and> map_of (activeRooms (fst (disconnect env_ok alice_sock srv1))) room3_id = Some [bob_id]"
proof -
  have up: "store_up env_ok"
    by (simp add: env_ok_def)
  note inst = disconnect_leaves_every_room [OF srv1_wf up, of alice_sock]
  have r1: "userId alice_sock \<in> set (map_get room1_id (activeRooms srv1))"
    and r2: "userId alice_sock \<in> set (map_get room2_id (activeRooms srv1))"
    and r3: "userId alice_sock \<notin> set (map_get room3_id (activeRooms srv1))"
    by (simp_all add: alice_sock_def srv1_def map_get_def)
  from inst have "snd (disconnect env_ok alice_sock srv1) =
        (Broadcast (socket_id alice_sock), UserOffline (userId alice_sock))
          # map (\<lambda>r. (ToRoom r, UserLeftRoom (userId alice_sock) (socket_username alice_sock) r))
              (rooms_of (userId alice_sock) (activeRooms srv1))"
    by blast
  then have a: "snd (disconnect env_ok alice_sock srv1) =
       [(Broadcast 1, UserOffline alice_id),
        (ToRoom room1_id, UserLeftRoom alice_id ''Alice'' room1_id),
        (ToRoom room2_id, UserLeftRoom alice_id ''Alice'' room2_id)]"
    by (simp add: rooms_of_def alice_sock_def srv1_def)
  from inst r1 have "map_get room1_id (activeRooms (fst (disconnect env_ok alice_sock srv1)))
      = set_delete (userId alice_sock) (map_get room1_id (activeRooms srv1))"
    by blast
  then have b: "map_get room1_id (activeRooms (fst (disconnect env_ok alice_sock srv1))) = [bob_id]"
    by (simp add: set_delete_def alice_sock_def srv1_def map_get_def)
  from inst r2 have "map_get room2_id (activeRooms (fst (disconnect env_ok alice_sock srv1)))
      = set_delete (userId alice_sock) (map_get room2_id (activeRooms srv1))
    \<and> (map_has room2_id (activeRooms (fst (disconnect env_ok alice_sock srv1)))
         \<longleftrightarrow> map_get room2_id (activeRooms (fst (disconnect env_ok alice_sock srv1))) \<noteq> [])"
    by blast
  then have c: "\<not> map_has room2_id (activeRooms (fst (disconnect env_ok alice_sock srv1)))"
    by (simp add: set_delete_def alice_sock_def srv1_def map_get_def)
  from inst r3 have "map_of (activeRooms (fst (disconnect env_ok alice_sock srv1))) room3_id
      = map_of (activeRooms srv1) room3_id"
    by blast
  then have d: "map_of (activeRooms (fst (disconnect env_ok alice_sock srv1))) room3_id = Some [bob_id]"
    by (simp add: srv1_def)
  from srv1_wf up a r1 b r2 c r3 d show ?thesis
    by blast
qed

text \<open>
  Claim C5 fails when the presence update throws. Alice is active in rooms \<open>r1\<close> (with
  bob) and \<open>r2\<close> (alone); her socket 1 is lost while the store does not answer. The
  awaited \<^verbatim>\<open>User.findByIdAndUpdate\<close> rejects, the \<^verbatim>\<open>catch\<close> logs, and the
  room cleanup after it in the same \<^verbatim>\<open>try\<close> never runs: nothing is emitted, no
  \<^verbatim>\<open>userLeftRoom\<close> among it, the socket is gone, and alice is still in the
  active sets of both rooms, \<open>r2\<close> still in the map. With the store answering, the same
  disconnect emits one \<^verbatim>\<open>userLeftRoom\<close> to each of the two rooms, takes alice out
  of \<open>r1\<close> and drops \<open>r2\<close>; and the \<^verbatim>\<open>leaveRoom\<close> handler, which does not
  touch the store, cleans up its room in either case.
\<close>

theorem disconnect_store_down_skips_rooms:
  "map_get room1_id (activeRooms srv1) = [alice_id, bob_id]
   \<and> map_get room2_id (activeRooms srv1) = [alice_id]
   \<and> userId alice_sock = alice_id
   \<and> snd (disconnect env_down alice_sock srv1) = []
   \<and> alice_sock \<notin> set (sockets (fst (disconnect env_down alice_sock srv1)))
   \<and> activeRooms (fst (disconnect env_down alice_sock srv1)) = activeRooms srv1
   \<and> snd (disconnect env_ok alice_sock srv1) =
       [(Broadcast 1, UserOffline alice_id),
        (ToRoom room1_id, UserLeftRoom alice_id ''Alice'' room1_id),
        (ToRoom room2_id, UserLeftRoom alice_id ''Alice'' room2_id)]
   \<and> activeRooms (fst (disconnect env_ok alice_sock srv1))
       = [(room1_id, [bob_id]), (room3_id, [bob_id])]
   \<and> leaveRoom alice_sock room2_id srv1 =
       (srv1\<lparr> rooms := (rooms srv1)(room2_id := {}),
              activeRooms := [(room1_id, [alice_id, bob_id]), (room3_id, [bob_id])] \<rparr>,
        [(ToRoom room2_id, UserLeftRoom alice_id ''Alice'' room2_id)])"
  by (simp add: disconnect_def leaveRoom_def Let_def env_down_def env_ok_def alice_sock_def
      srv1_def map_get_def map_has_def map_delete_def set_delete_def alice_tab_def bob_sock_def)

section \<open>Deleting a message\<close>









lemma mark_deleted_fields [simp]:
  "m_id (mark_deleted t m) = m_id m" "sender (mark_deleted t m) = sender m"
  "room (mark_deleted t m) = room m" "receiver (mark_deleted t m) = receiver m"
  "body (mark_deleted t m) = deleted_marker" "isDeleted (mark_deleted t m)"
  "deletedAt (mark_deleted t m) = Some t" "clientMsgId (mark_deleted t m) = clientMsgId m"
  "createdAt (mark_deleted t m) = createdAt m"
  by (simp_all add: mark_deleted_def)








section \<open>Two deletes of one message\<close>









text \<open>The two steps of one call, run one after the other, are the handler.\<close>

lemma del_steps_are_the_handler:
  "run_db (del_schedule ka kb [CallA, CallA] (messages s))
     = messages (fst (deleteRoomMessage (dc_env ka) (dc_sock ka) (dc_messageId ka) s))
   \<and> run_out (del_schedule ka kb [CallA, CallA] (messages s))
     = snd (deleteRoomMessage (dc_env ka) (dc_sock ka) (dc_messageId ka) s)"
  by (simp add: del_schedule_def deleteRoomMessage_def split: prod.splits option.splits)


lemma soft_deleted_bodies: "map body (soft_deleted t m db) = map body (soft_deleted t' m db)"
  by (simp add: soft_deleted_def)














section \<open>Invariants of the reachable states\<close>


















lemma connect_Inr:
  assumes "connect verify e c token s = Inr (s', out)"
  shows "\<exists>uid uname. s' = s\<lparr> users := findByIdAndUpdate uid True None (users s),
                   sockets := sockets s @ [\<lparr> socket_id = c, userId = uid, socket_username = uname \<rparr>],
                   rooms := (rooms s)(uid := insert c (rooms s uid)) \<rparr>"
  using assms by (auto simp: connect_def split: option.splits if_splits) blast

text \<open>An accepted socket is joined to the room named by its user id.\<close>

lemma connect_joins_own_room:
  assumes "connect verify e c token s = Inr (s', out)"
  shows "\<exists>sock \<in> set (sockets s'). socket_id sock = c \<and> c \<in> rooms s' (userId sock)"
  using connect_Inr [OF assms] by auto

lemma messages_of_handlers:
  "activeRooms (fst (sendMessage e sock p s)) = activeRooms s"
  "sockets (fst (sendMessage e sock p s)) = sockets s"
  "rooms (fst (sendMessage e sock p s)) = rooms s"
  "activeRooms (fst (sendRoomMessage e sock q s)) = activeRooms s"
  "sockets (fst (sendRoomMessage e sock q s)) = sockets s"
  "rooms (fst (sendRoomMessage e sock q s)) = rooms s"
  "activeRooms (fst (deleteRoomMessage e sock mid s)) = activeRooms s"
  "sockets (fst (deleteRoomMessage e sock mid s)) = sockets s"
  "rooms (fst (deleteRoomMessage e sock mid s)) = rooms s"
  "activeRooms (postMessage e uid b s) = activeRooms s"
  "sockets (postMessage e uid b s) = sockets s"
  "rooms (postMessage e uid b s) = rooms s"
  "activeRooms (deleteMessage e uid mid s) = activeRooms s"
  "sockets (deleteMessage e uid mid s) = sockets s"
  "rooms (deleteMessage e uid mid s) = rooms s"
  by (simp_all add: sendMessage_def sendRoomMessage_def deleteRoomMessage_def postMessage_def
      deleteMessage_def Let_def split: sum.splits prod.splits option.splits)


lemma persist_reachable_db:
  assumes "reachable_db db"
  shows "reachable_db (case persist e pop us db d of Inl x \<Rightarrow> snd x | Inr x \<Rightarrow> snd x)"
proof (cases "save (saved_at e) (new_id e) (store_up e) db d")
  case (Inl err)
  with assms show ?thesis by (simp add: persist_def)
next
  case (Inr x)
  obtain doc db' where "x = (doc, db')" by (cases x)
  with Inr have "save (saved_at e) (new_id e) (store_up e) db d = Inr (doc, db')"
    by simp
  from db_save [OF assms this] this show ?thesis
    by (simp add: persist_def)
qed

text \<open>The message collection of a reachable state is one the store can produce.\<close>

lemma reachable_messages: "reachable strict s \<Longrightarrow> reachable_db (messages s)"
proof (induction rule: reachable.induct)
  case (r_init us)
  show ?case by (simp add: server_init_def db_empty)
next
  case (r_connect s c verify e token s' out)
  from connect_Inr [OF r_connect.hyps(3)] r_connect.IH show ?case by auto
next
  case (r_joinRoom s sock roomId)
  then show ?case by (simp add: joinRoom_def Let_def)
next
  case (r_leaveRoom s sock roomId)
  then show ?case by (simp add: leaveRoom_def Let_def)
next
  case (r_sendMessage s sock e p)
  from persist_reachable_db [OF r_sendMessage.IH, of e populate_direct "users s" "direct_draft sock p"]
  show ?case
    by (auto simp: sendMessage_def split: sum.splits prod.splits)
next
  case (r_sendRoomMessage s sock e q)
  from persist_reachable_db [OF r_sendRoomMessage.IH, of e populate_room "users s" "room_draft q"]
  show ?case
    by (auto simp: sendRoomMessage_def Let_def split: sum.splits prod.splits)
next
  case (r_deleteRoomMessage s sock e messageId)
  have "messages (fst (deleteRoomMessage e sock messageId s)) = messages s
      \<or> messages (fst (deleteRoomMessage e sock messageId s))
          = snd (findOneAndUpdate (now e) messageId (userId sock) (messages s))"
    by (simp add: deleteRoomMessage_def split: prod.splits option.splits)
  with r_deleteRoomMessage.IH db_update [OF r_deleteRoomMessage.IH, of "now e" messageId "userId sock"]
  show ?case by auto
next
  case (r_disconnect s sock e)
  then show ?case by (simp add: disconnect_def Let_def)
next
  case (r_postMessage s e uid b)
  show ?case
  proof (cases "post_draft uid b")
    case None
    with r_postMessage.IH show ?thesis by (simp add: postMessage_def)
  next
    case (Some d)
    show ?thesis
    proof (cases "save (saved_at e) (new_id e) (store_up e) (messages s) d")
      case (Inl err)
      with Some r_postMessage.IH show ?thesis by (simp add: postMessage_def)
    next
      case (Inr x)
      obtain doc db' where "x = (doc, db')" by (cases x)
      with Inr have sv: "save (saved_at e) (new_id e) (store_up e) (messages s) d = Inr (doc, db')"
        by simp
      from db_save [OF r_postMessage.IH sv] Some sv show ?thesis
        by (simp add: postMessage_def)
    qed
  qed
next
  case (r_deleteMessage s e uid messageId)
  with db_delete [OF r_deleteMessage.IH, of messageId uid] show ?case
    by (simp add: deleteMessage_def)
qed




section \<open>Sends\<close>







text \<open>
  Which sockets are in which socket.io room after a handler: a handshake adds the new
  socket to the room of its user and to no other; \<^verbatim>\<open>joinRoom\<close> adds the socket to the
  room named; \<^verbatim>\<open>leaveRoom\<close> takes the socket out of the room named, whatever its
  name, the room of the socket's own user included; the sends and the delete change no room.
\<close>

lemma rooms_after_handlers:
  "connect verify e c token s = Inr (s', out) \<Longrightarrow>
     \<exists>sock \<in> set (sockets s'). socket_id sock = c
        \<and> (\<forall>r. rooms s' r = (if r = userId sock then insert c (rooms s r) else rooms s r))"
  "rooms (fst (joinRoom sock r' s)) r = (if r = r' then insert (socket_id sock) (rooms s r) else rooms s r)"
  "rooms (fst (leaveRoom sock r' s)) r = (if r = r' then rooms s r - {socket_id sock} else rooms s r)"
  "rooms (fst (sendMessage e sock p s)) = rooms s"
  "rooms (fst (sendRoomMessage e sock q s)) = rooms s"
  "rooms (fst (deleteRoomMessage e sock mid s)) = rooms s"
proof -
  show "connect verify e c token s = Inr (s', out) \<Longrightarrow>
     \<exists>sock \<in> set (sockets s'). socket_id sock = c
        \<and> (\<forall>r. rooms s' r = (if r = userId sock then insert c (rooms s r) else rooms s r))"
    using connect_Inr [of verify e c token s s' out] by auto
qed (simp_all add: joinRoom_def leaveRoom_def Let_def messages_of_handlers)













section \<open>Candidates and the remote description\<close>

lemma pending_of_update [simp]:
  "pending_of (st\<lparr> pendingCandidates := (pendingCandidates st)(u \<mapsto> q) \<rparr>) u = q"
  by (simp add: pending_of_def)

lemma handle_signals_Nil [simp]: "handle_signals sdp_ok answer_of [] st = st"
  by (simp add: handle_signals_def)

lemma handle_signals_Cons [simp]:
  "handle_signals sdp_ok answer_of (fs # sigs) st =
     handle_signals sdp_ok answer_of sigs (handleGroupCallSignal sdp_ok answer_of (fst fs) (snd fs) st)"
  by (simp add: handle_signals_def)

lemma handle_signals_append:
  "handle_signals sdp_ok answer_of (xs @ ys) st =
     handle_signals sdp_ok answer_of ys (handle_signals sdp_ok answer_of xs st)"
  by (simp add: handle_signals_def)

text \<open>Before a remote description is set, candidates of a peer are queued in arrival order.\<close>

lemma candidates_are_queued:
  assumes "peerConnections st u = Some pc" and "remoteDescription pc = None"
  shows "peerConnections (handle_signals sdp_ok answer_of (map (\<lambda>c. (u, Candidate c)) cs) st) u = Some pc
     \<and> pending_of (handle_signals sdp_ok answer_of (map (\<lambda>c. (u, Candidate c)) cs) st) u
         = pending_of st u @ cs"
  using assms
proof (induction cs arbitrary: st)
  case Nil
  then show ?case by simp
next
  case (Cons c cs)
  let ?st = "handleGroupCallSignal sdp_ok answer_of u (Candidate c) st"
  from Cons.prems have step: "?st = st\<lparr> pendingCandidates := (pendingCandidates st)(u \<mapsto> pending_of st u @ [c]) \<rparr>"
    by (simp add: handleGroupCallSignal_def)
  then have "peerConnections ?st u = Some pc" and "pending_of ?st u = pending_of st u @ [c]"
    using Cons.prems by simp_all
  with Cons.IH [of ?st] Cons.prems(2) show ?case
    by simp
qed

text \<open>The answer path: the queue of the peer is handed over in arrival order and emptied.\<close>

lemma answer_path_flushes_in_arrival_order:
  assumes "peerConnections st u = Some pc" and "remoteDescription pc = None" and "sdp_ok sdp"
  shows "map_option added
           (peerConnections
              (handle_signals sdp_ok answer_of (map (\<lambda>c. (u, Candidate c)) cs @ [(u, Answer sdp)]) st) u)
           = Some (added pc @ pending_of st u @ cs)
     \<and> pending_of
           (handle_signals sdp_ok answer_of (map (\<lambda>c. (u, Candidate c)) cs @ [(u, Answer sdp)]) st) u
           = []"
  using candidates_are_queued [OF assms(1,2), of sdp_ok answer_of cs] assms(3)
  by (simp add: handle_signals_append handleGroupCallSignal_def pending_of_def)

text \<open>
  Claim C3 fails on the offer path. The callee has accepted bob's call, so a peer
  connection for bob exists. A candidate \<open>c1\<close> of bob arrives before the remote
  description is set and is queued; bob's offer arrives and the remote description is set,
  but the offer branch does not touch the queue; a later candidate \<open>c2\<close> is added at
  once. In the end only \<open>c2\<close> was handed to the connection and \<open>c1\<close> is still queued.
\<close>

theorem offer_path_leaves_candidates_queued:
  "(let st = handle_signals (\<lambda>sdp. True) (\<lambda>sdp. ''answer'')
               [(''bob'', Candidate ''c1''), (''bob'', Offer ''offer''), (''bob'', Candidate ''c2'')]
               (acceptGroupCall ''bob'' ringing)
    in map_option remoteDescription (peerConnections st ''bob'') = Some (Some ''offer'')
       \<and> map_option added (peerConnections st ''bob'') = Some [''c2'']
       \<and> pending_of st ''bob'' = [''c1''])"
  by (simp add: Let_def handleGroupCallSignal_def acceptGroupCall_def createPeerConnection_def
      new_peer_connection_def pending_of_def ringing_def handleIncomingGroupCall_def
      initializeCall_def first_render_def)

section \<open>Releasing the local media\<close>

text \<open>
  Claim C9 fails on every exit but the hang-up button. The client has captured tracks 1
  and 2 and is ringing. Declining calls \<^verbatim>\<open>onClose\<close> without stopping a track, and
  the cleanup that runs when the component unmounts stops the tracks of the
  \<^verbatim>\<open>localStream\<close> its closure holds, which is \<^verbatim>\<open>null\<close>: both tracks still
  capture. A remote hang-up runs \<^verbatim>\<open>endCall\<close> through the listener's closure, with
  the same \<^verbatim>\<open>null\<close>; a negotiation error only sets the error text. The hang-up
  button, whose closure holds the current stream, does release both tracks.
\<close>

theorem reject_leaves_capture_running:
  "live ringing = {1, 2}
   \<and> closed (rejectGroupCall ''bob'' ringing)
   \<and> live (effect_cleanup (rejectGroupCall ''bob'' ringing)) = {1, 2}
   \<and> live (effect_cleanup (handleGroupCallEnded ringing)) = {1, 2}
   \<and> live (effect_cleanup (handleGroupCallRejected ringing)) = {1, 2}
   \<and> live (handleGroupCallSignal (\<lambda>sdp. False) (\<lambda>sdp. ''answer'') ''bob'' (Offer ''bad'')
             (acceptGroupCall ''bob'' ringing)) = {1, 2}
   \<and> live (endCall_button ringing) = {}"
  by (simp add: rejectGroupCall_def effect_cleanup_def handleGroupCallEnded_def
      handleGroupCallRejected_def endCall_button_def endCall_def stop_tracks_def
      handleGroupCallSignal_def acceptGroupCall_def createPeerConnection_def
      ringing_def handleIncomingGroupCall_def initializeCall_def first_render_def insert_commute)

section \<open>Reconciling delivered messages on the client\<close>



lemma chat_ids_Nil [simp]: "chat_ids [] = []"
  by (simp add: chat_ids_def)








end
